theory Spec2Isabelle
  imports Main "HOL-Library.AList"
begin

section \<open>Python values\<close>

text \<open>
  The importer plugin handles dynamically typed values: what argparse stored on the
  namespace, what the YAML loader returned, and the rows of a row-source file.
  \<open>PObj\<close> is an opaque object with an identity (a bound method, or the sentinel
  \<open>NO_ARG = object()\<close>). Strings are treated as ASCII text; floats are left out.
  A dict is an association list in insertion order, its keys strings.
\<close>

datatype pyval =
    PNone
  | PBool bool
  | PInt int
  | PStr string
  | PList "pyval list"
  | PDict "(string \<times> pyval) list"
  | PObj nat

type_synonym pydict = "(string \<times> pyval) list"

definition NO_ARG :: pyval where
  "NO_ARG = PObj 0"

text \<open>\<open>bool(v)\<close>, also the test of \<open>if v:\<close> and \<open>not v\<close>.\<close>

fun truthy :: "pyval \<Rightarrow> bool" where
  "truthy PNone = False"
| "truthy (PBool b) = b"
| "truthy (PInt i) = (i \<noteq> 0)"
| "truthy (PStr s) = (s \<noteq> [])"
| "truthy (PList xs) = (xs \<noteq> [])"
| "truthy (PDict d) = (d \<noteq> [])"
| "truthy (PObj n) = True"

text \<open>\<open>isinstance(v, basestring)\<close>\<close>

fun is_basestring :: "pyval \<Rightarrow> bool" where
  "is_basestring (PStr s) = True"
| "is_basestring v = False"

text \<open>\<open>isinstance(v, list)\<close>\<close>

fun is_list :: "pyval \<Rightarrow> bool" where
  "is_list (PList xs) = True"
| "is_list v = False"

text \<open>Decimal and hexadecimal numerals, as \<open>str(n)\<close>, \<open>"%s" % n\<close> and \<open>"%x" % n\<close> print them.\<close>

definition digit_char :: "nat \<Rightarrow> char" where
  "digit_char d = ''0123456789abcdef'' ! d"

fun show_nat_base :: "nat \<Rightarrow> nat \<Rightarrow> string" where
  "show_nat_base b n =
     (if b < 2 \<or> n < b then [digit_char n]
      else show_nat_base b (n div b) @ [digit_char (n mod b)])"

declare show_nat_base.simps [simp del]

definition show_nat :: "nat \<Rightarrow> string" where
  "show_nat n = show_nat_base 10 n"

definition show_hex :: "nat \<Rightarrow> string" where
  "show_hex n = show_nat_base 16 n"

definition show_int :: "int \<Rightarrow> string" where
  "show_int i = (if i < 0 then ''-'' @ show_nat (nat (- i)) else show_nat (nat i))"

text \<open>
  \<open>str(v)\<close>, which is also what \<open>"%s" % v\<close> substitutes. The text of a container is a
  \<open>repr\<close> and the text of a plain object holds its address; neither is determined
  here, and the result is \<open>None\<close> for them.
\<close>

fun py_str :: "pyval \<Rightarrow> string option" where
  "py_str PNone = Some ''None''"
| "py_str (PBool b) = Some (if b then ''True'' else ''False'')"
| "py_str (PInt i) = Some (show_int i)"
| "py_str (PStr s) = Some s"
| "py_str v = None"

text \<open>The elements an iteration over \<open>v\<close> yields (\<open>list.extend(v)\<close>, \<open>enumerate(v)\<close>);
  \<open>None\<close> where Python raises TypeError.\<close>

fun py_iter :: "pyval \<Rightarrow> pyval list option" where
  "py_iter (PList xs) = Some xs"
| "py_iter (PStr s) = Some (map (\<lambda>c. PStr [c]) s)"
| "py_iter (PDict d) = Some (map (\<lambda>kv. PStr (fst kv)) d)"
| "py_iter v = None"

definition is_substring :: "string \<Rightarrow> string \<Rightarrow> bool" where
  "is_substring x s = list_ex (\<lambda>i. take (length x) (drop i s) = x) [0 ..< Suc (length s)]"

text \<open>\<open>x in v\<close> for a string \<open>x\<close>; \<open>None\<close> where Python raises TypeError.\<close>

fun py_contains :: "pyval \<Rightarrow> string \<Rightarrow> bool option" where
  "py_contains (PList xs) x = Some (PStr x \<in> set xs)"
| "py_contains (PStr s) x = Some (is_substring x s)"
| "py_contains (PDict d) x = Some (x \<in> set (map fst d))"
| "py_contains v x = None"

definition lower_char :: "char \<Rightarrow> char" where
  "lower_char c =
     (let n = (of_char c :: nat)
      in if 65 \<le> n \<and> n \<le> 90 then char_of (n + 32) else c)"

text \<open>\<open>s.lower()\<close>\<close>

definition lower :: "string \<Rightarrow> string" where
  "lower s = map lower_char s"

text \<open>\<open>s.replace("_", "-")\<close>\<close>

definition replace_underscores :: "string \<Rightarrow> string" where
  "replace_underscores s = map (\<lambda>c. if c = CHR ''_'' then CHR ''-'' else c) s"

text \<open>\<open>s.endswith(suffix)\<close>\<close>

definition endswith :: "string \<Rightarrow> string \<Rightarrow> bool" where
  "endswith s suffix = (length suffix \<le> length s \<and> drop (length s - length suffix) s = suffix)"

section \<open>Errors\<close>

text \<open>
  \<open>Die code msg\<close> is \<open>ctx.die(code, msg)\<close>, which prints the message and aborts the
  command; the others are the Python exceptions the plugin lets escape.
  \<open>Undetermined\<close> marks a text this model does not determine (see \<open>py_str\<close>).
\<close>

datatype error =
    Die nat string
  | AttributeError string
  | TypeError
  | IndexError
  | ValueError
  | IOError string
  | OSError
  | Undetermined

definition bind_err :: "error + 'a \<Rightarrow> ('a \<Rightarrow> error + 'b) \<Rightarrow> error + 'b" where
  "bind_err m f = (case m of Inl e \<Rightarrow> Inl e | Inr x \<Rightarrow> f x)"

section \<open>CommandArguments\<close>

text \<open>
  The private fields of the class, the namespace \<open>args\<close> given to the constructor
  (the items of \<open>vars(args)\<close> in order), and \<open>attrs\<close>: the attributes that
  \<open>setattr\<close> and plain assignment put on the instance (\<open>path\<close>, \<open>dry_run\<close>,
  \<open>JAVA_DEBUG\<close>, \<open>bulk\<close>, ...).
\<close>

record command_arguments =
  args :: pydict
  accepts :: "string list"
  added :: "(string \<times> nat) list"
  java_initial :: "string list"
  java_additional :: "string list"
  py_initial :: "string list"
  py_additional :: "string list"
  attrs :: pydict

definition py_keys :: "string list" where
  "py_keys =
     [''javahelp'', ''skip'', ''file'', ''errs'', ''logback'',
      ''port'', ''password'', ''group'', ''create'', ''func'',
      ''bulk'', ''prog'', ''user'', ''key'', ''path'', ''logprefix'',
      ''JAVA_DEBUG'', ''quiet'', ''server'', ''depth'', ''clientdir'',
      ''fetch_jars'',
      ''sudo'']"

definition getattr :: "command_arguments \<Rightarrow> string \<Rightarrow> pyval option" where
  "getattr s key = map_of (attrs s) key"

definition setattr :: "string \<Rightarrow> pyval \<Rightarrow> command_arguments \<Rightarrow> command_arguments" where
  "setattr key val s = s\<lparr>attrs := AList.update key val (attrs s)\<rparr>"

definition build_arg_list :: "string \<Rightarrow> pyval \<Rightarrow> string list" where
  "build_arg_list key val =
     (if length key = 1 then
        [''-'' @ key] @
        (if val \<noteq> NO_ARG then (case val of PStr v \<Rightarrow> [v] | _ \<Rightarrow> []) else [])
      else
        (let key' = replace_underscores key in
         if val = NO_ARG then [''--'' @ key']
         else (case val of
                 PStr v \<Rightarrow> [''--'' @ key' @ ''='' @ v]
               | _ \<Rightarrow> [''--'' @ key'])))"

definition append_arg :: "string list \<Rightarrow> string \<Rightarrow> pyval \<Rightarrow> string list" where
  "append_arg cmd_list key val = cmd_list @ build_arg_list key val"

text \<open>\<open>cmd_list[idx:idx+len(arg_list)] = arg_list\<close>: the slice is as long as the new
  rendition.\<close>

definition reset_arg :: "string list \<Rightarrow> nat \<Rightarrow> string \<Rightarrow> pyval \<Rightarrow> string list" where
  "reset_arg cmd_list idx key val =
     (let arg_list = build_arg_list key val
      in take idx cmd_list @ arg_list @ drop (idx + length arg_list) cmd_list)"

definition set_path :: "pyval \<Rightarrow> command_arguments \<Rightarrow> error + command_arguments" where
  "set_path path s =
     (if \<not> is_list path then Inl (Die 202 ''Path is not a list'')
      else Inr (setattr ''path'' path s))"

text \<open>The list \<open>where\<close> of \<open>add\<close>: one of the two lists of additional arguments.\<close>

datatype additional = PyAdditional | JavaAdditional

fun get_where :: "additional \<Rightarrow> command_arguments \<Rightarrow> string list" where
  "get_where PyAdditional s = py_additional s"
| "get_where JavaAdditional s = java_additional s"

fun set_where :: "additional \<Rightarrow> string list \<Rightarrow> command_arguments \<Rightarrow> command_arguments" where
  "set_where PyAdditional xs s = s\<lparr>py_additional := xs\<rparr>"
| "set_where JavaAdditional xs s = s\<lparr>java_additional := xs\<rparr>"

text \<open>The last five lines of \<open>add\<close>: append and remember the index, or reset in place.\<close>

definition place_arg ::
  "additional \<Rightarrow> nat option \<Rightarrow> string \<Rightarrow> pyval \<Rightarrow> command_arguments \<Rightarrow> command_arguments" where
  "place_arg wh idx key val s =
     (case idx of
        None \<Rightarrow>
          (set_where wh (append_arg (get_where wh s) key val) s)
            \<lparr>added := AList.update key (length (get_where wh s)) (added s)\<rparr>
      | Some i \<Rightarrow> set_where wh (reset_arg (get_where wh s) i key val) s)"

definition add :: "string \<Rightarrow> pyval \<Rightarrow> command_arguments \<Rightarrow> error + command_arguments" where
  "add key val s =
     (let idx = map_of (added s) key in
      if key \<in> set py_keys then Inr (place_arg PyAdditional idx key val (setattr key val s))
      else if key \<notin> set (accepts s) then Inl (Die 200 (''Unknown argument: '' @ key))
      else Inr (place_arg JavaAdditional idx key val s))"

text \<open>\<open>java_args\<close>: the argument vector of the external process.\<close>

definition java_args :: "command_arguments \<Rightarrow> error + pyval list" where
  "java_args s =
     (case getattr s ''path'' of
        None \<Rightarrow> Inl (AttributeError ''path'')
      | Some p \<Rightarrow>
          (case py_iter p of
             None \<Rightarrow> Inl TypeError
           | Some ps \<Rightarrow>
               (let rv = map PStr (java_initial s) @ map PStr (java_additional s) @ ps in
                case getattr s ''JAVA_DEBUG'' of
                  None \<Rightarrow> Inl (AttributeError ''JAVA_DEBUG'')
                | Some d \<Rightarrow>
                    if truthy d then
                      (case py_str d of
                         None \<Rightarrow> Inl Undetermined
                       | Some ds \<Rightarrow> Inr (rv @ [PStr (''--debug='' @ ds)]))
                    else Inr rv)))"

definition initial_args :: "command_arguments \<Rightarrow> string list" where
  "initial_args s = py_initial s @ java_initial s"

definition added_args :: "command_arguments \<Rightarrow> error + pyval list" where
  "added_args s =
     (case getattr s ''path'' of
        None \<Rightarrow> Inl (AttributeError ''path'')
      | Some p \<Rightarrow>
          (case py_iter p of
             None \<Rightarrow> Inl TypeError
           | Some ps \<Rightarrow> Inr (map PStr (py_additional s) @ map PStr (java_additional s) @ ps)))"

text \<open>The constructor. \<open>conn\<close> stands for \<open>ctx.conn(args)\<close> and the three strings read
  from the client: host, port and session id; \<open>Inl\<close> when no connection is made.\<close>

definition empty_arguments :: "pydict \<Rightarrow> command_arguments" where
  "empty_arguments a =
     \<lparr>args = a, accepts = [], added = [], java_initial = [], java_additional = [],
      py_initial = [], py_additional = [], attrs = []\<rparr>"

text \<open>\<open>args.key\<close> on the argparse namespace.\<close>

definition arg_lookup :: "pydict \<Rightarrow> string \<Rightarrow> error + pyval" where
  "arg_lookup a key = (case map_of a key of None \<Rightarrow> Inl (AttributeError key) | Some v \<Rightarrow> Inr v)"

definition set_login_arguments ::
  "(error + string \<times> string \<times> string) \<Rightarrow> pydict \<Rightarrow> command_arguments \<Rightarrow> error + command_arguments" where
  "set_login_arguments conn a s =
     bind_err (arg_lookup a ''javahelp'') (\<lambda>javahelp.
       let s1 = (if truthy javahelp then s\<lparr>java_initial := java_initial s @ [''-h'']\<rparr> else s) in
       if ''-h'' \<in> set (java_initial s1) then Inr s1
       else bind_err (arg_lookup a ''f'') (\<lambda>f.
         if truthy f then Inr s1
         else bind_err (arg_lookup a ''advanced_help'') (\<lambda>advanced_help.
           if truthy advanced_help then Inr s1
           else bind_err conn (\<lambda>client.
             case client of (host, port, session) \<Rightarrow>
               Inr (s1\<lparr>java_initial :=
                      java_initial s1 @ [''-s'', host] @ [''-p'', port] @ [''-k'', session]\<rparr>)))))"

text \<open>The test \<open>'all' in skip or name in skip\<close>.\<close>

definition skip_requested :: "pyval \<Rightarrow> string \<Rightarrow> error + bool" where
  "skip_requested skip name =
     (case py_contains skip ''all'' of
        None \<Rightarrow> Inl TypeError
      | Some b \<Rightarrow>
          if b then Inr True
          else (case py_contains skip name of None \<Rightarrow> Inl TypeError | Some b' \<Rightarrow> Inr b'))"

definition skip_flag ::
  "pyval \<Rightarrow> string \<Rightarrow> string \<Rightarrow> command_arguments \<Rightarrow> error + command_arguments" where
  "skip_flag skip name flag s =
     bind_err (skip_requested skip name) (\<lambda>b.
       Inr (if b then s\<lparr>java_initial := java_initial s @ [flag]\<rparr> else s))"

definition set_skip_values :: "pyval \<Rightarrow> command_arguments \<Rightarrow> error + command_arguments" where
  "set_skip_values skip s =
     bind_err (skip_flag skip ''checksum'' ''--checksum-algorithm=File-Size-64'' s) (\<lambda>s1.
     bind_err (skip_flag skip ''thumbnails'' ''--no-thumbnails'' s1) (\<lambda>s2.
     bind_err (skip_flag skip ''minmax'' ''--no-stats-info'' s2) (\<lambda>s3.
     skip_flag skip ''upgrade'' ''--no-upgrade-check'' s3)))"

definition set_skip_arguments :: "pydict \<Rightarrow> command_arguments \<Rightarrow> error + command_arguments" where
  "set_skip_arguments a s =
     bind_err (arg_lookup a ''skip'') (\<lambda>skip.
       if \<not> truthy skip then Inr s else set_skip_values skip s)"

text \<open>The body of the loop \<open>for key in vars(args)\<close>.\<close>

definition init_key :: "string \<times> pyval \<Rightarrow> command_arguments \<Rightarrow> command_arguments" where
  "init_key kv s =
     (let key = fst kv; val = snd kv;
          s1 = s\<lparr>accepts := List.insert key (accepts s)\<rparr>
      in if key \<in> set py_keys then
           (let s2 = setattr key val s1
            in s2\<lparr>py_initial := append_arg (py_initial s2) key val\<rparr>)
         else if \<not> truthy val then s1
         else s1\<lparr>java_initial := append_arg (java_initial s1) key val\<rparr>)"

definition new_command_arguments ::
  "(error + string \<times> string \<times> string) \<Rightarrow> pydict \<Rightarrow> error + command_arguments" where
  "new_command_arguments conn a =
     bind_err (set_login_arguments conn a (empty_arguments a)) (\<lambda>s1.
     bind_err (set_skip_arguments a s1) (\<lambda>s2.
     Inr (fold init_key a s2)))"

text \<open>The fixed order of the skip shortcuts and the flag of each, as the specification
  lists them; \<open>set_skip_values\<close> is compared with it below.\<close>

definition skip_order :: "(string \<times> string) list" where
  "skip_order =
     [(''checksum'', ''--checksum-algorithm=File-Size-64''),
      (''thumbnails'', ''--no-thumbnails''),
      (''minmax'', ''--no-stats-info''),
      (''upgrade'', ''--no-upgrade-check'')]"

definition SKIP_CHOICES :: "string list" where
  "SKIP_CHOICES = [''all'', ''checksum'', ''minmax'', ''thumbnails'', ''upgrade'']"

definition skip_flags :: "string list \<Rightarrow> string list" where
  "skip_flags names =
     map snd (filter (\<lambda>nf. ''all'' \<in> set names \<or> fst nf \<in> set names) skip_order)"

section \<open>Rendering and the argument lists\<close>

lemma build_arg_list_single:
  "length k = 1 \<Longrightarrow>
     build_arg_list k val = (''-'' @ k) # (case val of PStr v \<Rightarrow> [v] | _ \<Rightarrow> [])"
  by (cases val) (simp_all add: build_arg_list_def NO_ARG_def)

lemma build_arg_list_long:
  "length k \<noteq> 1 \<Longrightarrow>
     build_arg_list k val =
       (case val of PStr v \<Rightarrow> [''--'' @ replace_underscores k @ ''='' @ v]
                  | _ \<Rightarrow> [''--'' @ replace_underscores k])"
  by (cases val) (simp_all add: build_arg_list_def NO_ARG_def Let_def)

text \<open>
  C3. Rendering a pair of key and value. A key of one character gives \<open>-k\<close> followed by
  the value as a token of its own when the value is a string, and \<open>-k\<close> alone when no
  value is given or the value is not a string. A longer key has its underscores replaced
  by hyphens and gives \<open>--k=v\<close> for a string value and \<open>--k\<close> alone otherwise.
\<close>

theorem build_arg_list_rendering:
  "(length k = 1 \<longrightarrow>
      build_arg_list k (PStr v) = [''-'' @ k, v] \<and>
      build_arg_list k NO_ARG = [''-'' @ k] \<and>
      (\<not> is_basestring val \<longrightarrow> build_arg_list k val = [''-'' @ k])) \<and>
   (1 < length k \<longrightarrow>
      build_arg_list k (PStr v) = [''--'' @ replace_underscores k @ ''='' @ v] \<and>
      build_arg_list k NO_ARG = [''--'' @ replace_underscores k] \<and>
      (\<not> is_basestring val \<longrightarrow> build_arg_list k val = [''--'' @ replace_underscores k]))"
proof (intro conjI impI)
  assume k: "length k = 1"
  show "build_arg_list k (PStr v) = [''-'' @ k, v]"
    using k by (simp add: build_arg_list_single)
  show "build_arg_list k NO_ARG = [''-'' @ k]"
    using k by (simp add: build_arg_list_single NO_ARG_def)
  show "build_arg_list k val = [''-'' @ k]" if "\<not> is_basestring val"
    using k that by (cases val) (simp_all add: build_arg_list_single)
next
  assume k: "1 < length k"
  then have k1: "length k \<noteq> 1" by simp
  show "build_arg_list k (PStr v) = [''--'' @ replace_underscores k @ ''='' @ v]"
    using k1 by (simp add: build_arg_list_long)
  show "build_arg_list k NO_ARG = [''--'' @ replace_underscores k]"
    using k1 by (simp add: build_arg_list_long NO_ARG_def)
  show "build_arg_list k val = [''--'' @ replace_underscores k]" if "\<not> is_basestring val"
    using k1 that by (cases val) (simp_all add: build_arg_list_long)
qed

theorem build_arg_list_rendering_witness:
  "build_arg_list ''n'' (PStr ''img'') = [''-n'', ''img''] \<and>
   build_arg_list ''n'' NO_ARG = [''-n''] \<and>
   build_arg_list ''n'' (PBool True) = [''-n''] \<and>
   build_arg_list ''foo_bar'' (PStr ''v'') = [''--foo-bar=v''] \<and>
   build_arg_list ''foo_bar'' NO_ARG = [''--foo-bar''] \<and>
   build_arg_list ''foo_bar'' (PBool True) = [''--foo-bar'']"
  using build_arg_list_rendering [of "''n''" "''img''" "PBool True"]
        build_arg_list_rendering [of "''foo_bar''" "''v''" "PBool True"]
  by (simp add: replace_underscores_def)

section \<open>Skip shortcuts\<close>

lemma skip_requested_list:
  "skip_requested (PList (map PStr names)) name =
     Inr (''all'' \<in> set names \<or> name \<in> set names)"
  by (auto simp: skip_requested_def)

lemma skip_flag_list:
  "skip_flag (PList (map PStr names)) name flag s =
     Inr (s\<lparr>java_initial :=
              java_initial s @ (if ''all'' \<in> set names \<or> name \<in> set names then [flag] else [])\<rparr>)"
  by (simp add: skip_flag_def skip_requested_list bind_err_def)

lemma set_skip_values_list:
  "set_skip_values (PList (map PStr names)) s =
     Inr (s\<lparr>java_initial := java_initial s @ skip_flags names\<rparr>)"
  by (simp add: set_skip_values_def skip_flag_list bind_err_def skip_flags_def skip_order_def)

text \<open>
  C7. For a list of skip shortcut names, \<open>set_skip_values\<close> appends to the initial
  arguments the flags of the shortcuts that are present or implied by \<open>all\<close>, one flag
  each, in the order checksum, thumbnails, minmax, upgrade. Two lists with the same
  names, in any order and with any repetition, give the same flags, and \<open>all\<close> alone
  gives the flags of the four shortcuts together.
\<close>

theorem set_skip_values_fixed_order:
  "set_skip_values (PList (map PStr names)) s =
     Inr (s\<lparr>java_initial := java_initial s @ skip_flags names\<rparr>) \<and>
   skip_flags names =
     map snd (filter (\<lambda>nf. ''all'' \<in> set names \<or> fst nf \<in> set names) skip_order) \<and>
   (set names = set names' \<longrightarrow>
      set_skip_values (PList (map PStr names)) s = set_skip_values (PList (map PStr names')) s) \<and>
   set_skip_values (PList [PStr ''all'']) s =
     set_skip_values (PList [PStr ''checksum'', PStr ''thumbnails'', PStr ''minmax'', PStr ''upgrade'']) s \<and>
   skip_flags [''all''] =
     [''--checksum-algorithm=File-Size-64'', ''--no-thumbnails'', ''--no-stats-info'',
      ''--no-upgrade-check'']"
proof (intro conjI impI)
  show "set_skip_values (PList (map PStr names)) s =
          Inr (s\<lparr>java_initial := java_initial s @ skip_flags names\<rparr>)"
    by (rule set_skip_values_list)
  show "skip_flags names =
          map snd (filter (\<lambda>nf. ''all'' \<in> set names \<or> fst nf \<in> set names) skip_order)"
    by (simp add: skip_flags_def)
  show "set_skip_values (PList (map PStr names)) s = set_skip_values (PList (map PStr names')) s"
    if "set names = set names'"
    using that by (simp add: set_skip_values_list skip_flags_def)
  have "set_skip_values (PList (map PStr [''all''])) s =
          set_skip_values (PList (map PStr [''checksum'', ''thumbnails'', ''minmax'', ''upgrade''])) s"
    unfolding set_skip_values_list by (simp add: skip_flags_def skip_order_def)
  then show "set_skip_values (PList [PStr ''all'']) s =
          set_skip_values
            (PList [PStr ''checksum'', PStr ''thumbnails'', PStr ''minmax'', PStr ''upgrade'']) s"
    by simp
  show "skip_flags [''all''] =
          [''--checksum-algorithm=File-Size-64'', ''--no-thumbnails'', ''--no-stats-info'',
           ''--no-upgrade-check'']"
    by (simp add: skip_flags_def skip_order_def)
qed

theorem set_skip_values_fixed_order_witness:
  "set_skip_values (PList (map PStr [''upgrade'', ''checksum''])) (empty_arguments []) =
     Inr ((empty_arguments [])\<lparr>java_initial :=
            [''--checksum-algorithm=File-Size-64'', ''--no-upgrade-check'']\<rparr>) \<and>
   set_skip_values (PList (map PStr [''upgrade'', ''checksum''])) (empty_arguments []) =
     set_skip_values (PList (map PStr [''checksum'', ''upgrade'', ''checksum''])) (empty_arguments [])"
proof -
  let ?a = "[''upgrade'', ''checksum'']"
  let ?b = "[''checksum'', ''upgrade'', ''checksum'']"
  let ?s = "empty_arguments []"
  have eq: "set ?a = set ?b"
    by auto
  have fl: "java_initial ?s @ skip_flags ?a =
              [''--checksum-algorithm=File-Size-64'', ''--no-upgrade-check'']"
    by (simp add: skip_flags_def skip_order_def empty_arguments_def)
  note t = set_skip_values_fixed_order [of ?a ?s ?b]
  from t have "set_skip_values (PList (map PStr ?a)) ?s =
                 Inr (?s\<lparr>java_initial := java_initial ?s @ skip_flags ?a\<rparr>)"
    by blast
  then have 1: "set_skip_values (PList (map PStr ?a)) ?s =
                 Inr (?s\<lparr>java_initial :=
                        [''--checksum-algorithm=File-Size-64'', ''--no-upgrade-check'']\<rparr>)"
    unfolding fl .
  from t eq have 2: "set_skip_values (PList (map PStr ?a)) ?s =
                       set_skip_values (PList (map PStr ?b)) ?s"
    by blast
  from 1 2 show ?thesis
    by (intro conjI)
qed

section \<open>Adding arguments\<close>

lemma getattr_setattr:
  "getattr (setattr k v s) k' = (if k' = k then Some v else getattr s k')"
  by (simp add: getattr_def setattr_def update_conv')

lemma setattr_frame:
  "java_initial (setattr k v s) = java_initial s"
  "java_additional (setattr k v s) = java_additional s"
  "py_additional (setattr k v s) = py_additional s"
  "py_initial (setattr k v s) = py_initial s"
  "added (setattr k v s) = added s"
  "accepts (setattr k v s) = accepts s"
  "args (setattr k v s) = args s"
  by (simp_all add: setattr_def)

lemma place_arg_py_frame:
  "java_initial (place_arg PyAdditional idx key val s) = java_initial s"
  "java_additional (place_arg PyAdditional idx key val s) = java_additional s"
  "attrs (place_arg PyAdditional idx key val s) = attrs s"
  "accepts (place_arg PyAdditional idx key val s) = accepts s"
  "args (place_arg PyAdditional idx key val s) = args s"
  by (simp_all add: place_arg_def split: option.splits)

lemma place_arg_java_frame:
  "java_initial (place_arg JavaAdditional idx key val s) = java_initial s"
  "py_additional (place_arg JavaAdditional idx key val s) = py_additional s"
  "attrs (place_arg JavaAdditional idx key val s) = attrs s"
  "accepts (place_arg JavaAdditional idx key val s) = accepts s"
  "args (place_arg JavaAdditional idx key val s) = args s"
  by (simp_all add: place_arg_def split: option.splits)

lemma getattr_place_arg:
  "getattr (place_arg wh idx key val s) k = getattr s k"
  by (cases wh) (simp_all add: getattr_def place_arg_py_frame place_arg_java_frame)

lemma java_args_cong:
  "java_initial s' = java_initial s \<Longrightarrow> java_additional s' = java_additional s \<Longrightarrow>
   getattr s' ''path'' = getattr s ''path'' \<Longrightarrow>
   getattr s' ''JAVA_DEBUG'' = getattr s ''JAVA_DEBUG'' \<Longrightarrow>
   java_args s' = java_args s"
  by (auto simp: java_args_def split: option.splits)

lemma add_py_key:
  "key \<in> set py_keys \<Longrightarrow>
   add key val s = Inr (place_arg PyAdditional (map_of (added s) key) key val (setattr key val s))"
  by (simp add: add_def)

text \<open>An argument that is added again with a rendition of the same number of tokens is
  replaced where it stands.\<close>

lemma reset_arg_in_place:
  assumes "length (build_arg_list key val) = length old"
  shows "reset_arg (pre @ old @ post) (length pre) key val = pre @ build_arg_list key val @ post"
  using assms by (simp add: reset_arg_def Let_def)

section \<open>The constructor\<close>

lemma init_key_frame:
  "java_additional (init_key kv s) = java_additional s"
  "py_additional (init_key kv s) = py_additional s"
  "added (init_key kv s) = added s"
  by (simp_all add: init_key_def Let_def setattr_def)

lemma init_key_java_initial:
  "java_initial (init_key kv s) =
     java_initial s @
       (if fst kv \<notin> set py_keys \<and> truthy (snd kv) then build_arg_list (fst kv) (snd kv) else [])"
  by (simp add: init_key_def Let_def setattr_def append_arg_def)

lemma getattr_init_key:
  "getattr (init_key kv s) k =
     (if fst kv \<in> set py_keys \<and> k = fst kv then Some (snd kv) else getattr s k)"
  by (simp add: init_key_def Let_def getattr_def setattr_def update_conv')

lemma fold_init_key_java_additional:
  "java_additional (fold init_key a s) = java_additional s"
  by (induction a arbitrary: s) (simp_all add: init_key_frame)

lemma fold_init_key_java_initial:
  "java_initial (fold init_key a s) =
     java_initial s @
       concat (map (\<lambda>kv. build_arg_list (fst kv) (snd kv))
                 (filter (\<lambda>kv. fst kv \<notin> set py_keys \<and> truthy (snd kv)) a))"
  by (induction a arbitrary: s) (simp_all add: init_key_java_initial)

lemma fold_init_key_other:
  "k \<notin> fst ` set a \<Longrightarrow> getattr (fold init_key a s) k = getattr s k"
  by (induction a arbitrary: s) (auto simp: getattr_init_key)

lemma fold_init_key_attr:
  "distinct (map fst a) \<Longrightarrow> (k, v) \<in> set a \<Longrightarrow> k \<in> set py_keys \<Longrightarrow>
   getattr (fold init_key a s) k = Some v"
proof (induction a arbitrary: s)
  case Nil
  then show ?case by simp
next
  case (Cons kv a)
  show ?case
  proof (cases "kv = (k, v)")
    case True
    with Cons.prems have "k \<notin> fst ` set a" by auto
    then have "getattr (fold init_key a (init_key kv s)) k = getattr (init_key kv s) k"
      by (rule fold_init_key_other)
    with True Cons.prems(3) show ?thesis
      by (simp add: getattr_init_key)
  next
    case False
    with Cons.prems have "(k, v) \<in> set a" "distinct (map fst a)" by auto
    then show ?thesis using Cons.IH Cons.prems(3) by simp
  qed
qed

text \<open>The state after the login and the skip arguments, before the loop over the keys.\<close>

definition before_keys ::
  "(error + string \<times> string \<times> string) \<Rightarrow> pydict \<Rightarrow> error + command_arguments" where
  "before_keys conn a =
     bind_err (set_login_arguments conn a (empty_arguments a)) (set_skip_arguments a)"

lemma new_command_arguments_fold:
  "new_command_arguments conn a = Inr s \<Longrightarrow>
   \<exists>s2. before_keys conn a = Inr s2 \<and> s = fold init_key a s2"
  by (auto simp: new_command_arguments_def before_keys_def bind_err_def split: sum.splits)

text \<open>Login and skip arguments change the initial arguments of the external process
  and nothing else.\<close>

definition only_java_initial :: "command_arguments \<Rightarrow> command_arguments \<Rightarrow> bool" where
  "only_java_initial s s' = (s' = s\<lparr>java_initial := java_initial s'\<rparr>)"

lemma only_java_initial_refl: "only_java_initial s s"
  by (simp add: only_java_initial_def)

lemma only_java_initial_update: "only_java_initial s (s\<lparr>java_initial := xs\<rparr>)"
  by (simp add: only_java_initial_def)

lemma only_java_initial_trans:
  "only_java_initial s s' \<Longrightarrow> only_java_initial s' s'' \<Longrightarrow> only_java_initial s s''"
  unfolding only_java_initial_def
  by (metis command_arguments.update_convs(4) command_arguments.surjective
            command_arguments.select_convs(4))

lemma only_java_initial_fields:
  assumes "only_java_initial s s'"
  shows "java_additional s' = java_additional s" "attrs s' = attrs s"
        "py_additional s' = py_additional s" "py_initial s' = py_initial s"
        "added s' = added s" "accepts s' = accepts s" "args s' = args s"
proof -
  from assms have e: "s' = s\<lparr>java_initial := java_initial s'\<rparr>"
    by (simp add: only_java_initial_def)
  show "java_additional s' = java_additional s" by (subst e) simp
  show "attrs s' = attrs s" by (subst e) simp
  show "py_additional s' = py_additional s" by (subst e) simp
  show "py_initial s' = py_initial s" by (subst e) simp
  show "added s' = added s" by (subst e) simp
  show "accepts s' = accepts s" by (subst e) simp
  show "args s' = args s" by (subst e) simp
qed

lemma skip_flag_only_java_initial:
  "skip_flag skip name flag s = Inr s' \<Longrightarrow> only_java_initial s s'"
  by (auto simp: skip_flag_def bind_err_def only_java_initial_def split: sum.splits if_splits)

lemma set_skip_values_only_java_initial:
  assumes "set_skip_values skip s = Inr s'"
  shows "only_java_initial s s'"
proof -
  from assms obtain s1 s2 s3 where
    1: "skip_flag skip ''checksum'' ''--checksum-algorithm=File-Size-64'' s = Inr s1" and
    2: "skip_flag skip ''thumbnails'' ''--no-thumbnails'' s1 = Inr s2" and
    3: "skip_flag skip ''minmax'' ''--no-stats-info'' s2 = Inr s3" and
    4: "skip_flag skip ''upgrade'' ''--no-upgrade-check'' s3 = Inr s'"
    by (auto simp: set_skip_values_def bind_err_def split: sum.splits)
  show ?thesis
    using 1 2 3 4
    by (blast intro: only_java_initial_trans dest: skip_flag_only_java_initial)
qed

lemma set_skip_arguments_only_java_initial:
  "set_skip_arguments a s = Inr s' \<Longrightarrow> only_java_initial s s'"
  by (auto simp: set_skip_arguments_def bind_err_def only_java_initial_refl
           split: sum.splits if_splits dest: set_skip_values_only_java_initial)

lemma set_login_arguments_only_java_initial:
  "set_login_arguments conn a s = Inr s' \<Longrightarrow> only_java_initial s s'"
  by (auto simp: set_login_arguments_def bind_err_def Let_def only_java_initial_def
           split: sum.splits if_splits prod.splits)

lemma before_keys_only_java_initial:
  "before_keys conn a = Inr s2 \<Longrightarrow> only_java_initial (empty_arguments a) s2"
  by (auto simp: before_keys_def bind_err_def split: sum.splits
           intro: only_java_initial_trans
           dest: set_login_arguments_only_java_initial set_skip_arguments_only_java_initial)

lemma init_key_py:
  "k \<in> set py_keys \<Longrightarrow>
   init_key (k, v) s =
     s\<lparr>accepts := List.insert k (accepts s), attrs := AList.update k v (attrs s),
       py_initial := py_initial s @ build_arg_list k v\<rparr>"
  by (simp add: init_key_def Let_def setattr_def append_arg_def)

lemma init_key_java:
  "k \<notin> set py_keys \<Longrightarrow>
   init_key (k, v) s =
     s\<lparr>accepts := List.insert k (accepts s),
       java_initial := java_initial s @ (if truthy v then build_arg_list k v else [])\<rparr>"
  by (simp add: init_key_def Let_def append_arg_def)

text \<open>A namespace as argparse leaves it for a bulk import, and a connection.\<close>

definition example_args :: pydict where
  "example_args =
     [(''javahelp'', PBool False), (''f'', PBool False), (''advanced_help'', PBool False),
      (''skip'', PList [PStr ''minmax'']), (''bulk'', PStr ''b.yml''), (''n'', PStr ''x''),
      (''c'', PBool False), (''d'', PNone), (''name'', PNone),
      (''file'', PNone), (''errs'', PNone), (''logprefix'', PNone),
      (''path'', PList []), (''JAVA_DEBUG'', PNone)]"

definition example_conn :: "error + string \<times> string \<times> string" where
  "example_conn = Inr (''h'', ''4064'', ''sess'')"

definition example_arguments :: command_arguments where
  "example_arguments =
     \<lparr>args = example_args,
      accepts = [''JAVA_DEBUG'', ''path'', ''logprefix'', ''errs'', ''file'', ''name'', ''d'', ''c'', ''n'',
                 ''bulk'', ''skip'', ''advanced_help'', ''f'', ''javahelp''],
      added = [],
      java_initial = [''-s'', ''h'', ''-p'', ''4064'', ''-k'', ''sess'', ''--no-stats-info'',
                      ''-n'', ''x''],
      java_additional = [],
      py_initial = [''--javahelp'', ''--skip'', ''--bulk=b.yml'', ''--file'', ''--errs'',
                    ''--logprefix'', ''--path'', ''--JAVA-DEBUG''],
      py_additional = [],
      attrs = [(''javahelp'', PBool False), (''skip'', PList [PStr ''minmax'']),
               (''bulk'', PStr ''b.yml''), (''file'', PNone), (''errs'', PNone),
               (''logprefix'', PNone), (''path'', PList []), (''JAVA_DEBUG'', PNone)]\<rparr>"

lemma example_login:
  "set_login_arguments example_conn example_args (empty_arguments example_args) =
     Inr ((empty_arguments example_args)
            \<lparr>java_initial := [''-s'', ''h'', ''-p'', ''4064'', ''-k'', ''sess'']\<rparr>)"
  by (simp add: set_login_arguments_def arg_lookup_def bind_err_def empty_arguments_def
        example_args_def example_conn_def)

lemma example_skip:
  "set_skip_arguments example_args s =
     Inr (s\<lparr>java_initial := java_initial s @ [''--no-stats-info'']\<rparr>)"
proof -
  have 1: "set_skip_values (PList (map PStr [''minmax''])) s =
             Inr (s\<lparr>java_initial := java_initial s @ skip_flags [''minmax'']\<rparr>)"
    by (rule set_skip_values_list)
  have 2: "skip_flags [''minmax''] = [''--no-stats-info'']"
    by (simp add: skip_flags_def skip_order_def)
  have 3: "arg_lookup example_args ''skip'' = Inr (PList [PStr ''minmax''])"
    by (simp add: arg_lookup_def example_args_def)
  from 1 2 have "set_skip_values (PList [PStr ''minmax'']) s =
                   Inr (s\<lparr>java_initial := java_initial s @ [''--no-stats-info'']\<rparr>)"
    by simp
  with 3 show ?thesis
    by (simp add: set_skip_arguments_def bind_err_def)
qed

lemma example_py_keys:
  "''javahelp'' \<in> set py_keys" "''skip'' \<in> set py_keys" "''bulk'' \<in> set py_keys"
  "''file'' \<in> set py_keys" "''errs'' \<in> set py_keys" "''logprefix'' \<in> set py_keys"
  "''path'' \<in> set py_keys" "''JAVA_DEBUG'' \<in> set py_keys"
  "''f'' \<notin> set py_keys" "''advanced_help'' \<notin> set py_keys" "''n'' \<notin> set py_keys"
  "''c'' \<notin> set py_keys" "''d'' \<notin> set py_keys" "''name'' \<notin> set py_keys"
  "''dry_run'' \<notin> set py_keys"
  by (simp_all add: py_keys_def)

lemma example_fold:
  "fold init_key example_args
     ((empty_arguments example_args)
        \<lparr>java_initial := [''-s'', ''h'', ''-p'', ''4064'', ''-k'', ''sess'', ''--no-stats-info'']\<rparr>) =
   example_arguments"
  unfolding example_args_def
  by (simp add: init_key_py init_key_java example_py_keys build_arg_list_def NO_ARG_def
        replace_underscores_def empty_arguments_def example_arguments_def example_args_def)

lemma example_arguments_constructed:
  "new_command_arguments example_conn example_args = Inr example_arguments"
  unfolding new_command_arguments_def
  by (simp add: example_login example_skip bind_err_def example_fold)

text \<open>The vector of the external process, and where \<open>add\<close> and the constructor put the
  rendition of a key.\<close>

lemma java_args_vector:
  assumes "getattr s ''path'' = Some p" "py_iter p = Some ps"
    "getattr s ''JAVA_DEBUG'' = Some d" "truthy d \<longrightarrow> py_str d = Some ds"
  shows "java_args s =
           Inr (map PStr (java_initial s) @ map PStr (java_additional s) @ ps @
                (if truthy d then [PStr (''--debug='' @ ds)] else []))"
  using assms by (simp add: java_args_def)

lemma place_arg_py_lists:
  "py_initial (place_arg PyAdditional idx key val s) = py_initial s"
  "py_additional (place_arg PyAdditional idx key val s) =
     (case idx of
        None \<Rightarrow> py_additional s @ build_arg_list key val
      | Some i \<Rightarrow> reset_arg (py_additional s) i key val)"
  by (simp_all add: place_arg_def append_arg_def split: option.splits)

lemma skip_flag_java_initial:
  "skip_flag skip name flag s = Inr s' \<Longrightarrow>
   java_initial s' =
     java_initial s @
     (if py_contains skip ''all'' = Some True \<or> py_contains skip name = Some True
      then [flag] else [])"
  by (auto simp: skip_flag_def skip_requested_def bind_err_def
           split: option.splits if_splits sum.splits)

lemma set_skip_values_java_initial:
  assumes "set_skip_values skip s = Inr s'"
  shows "java_initial s' =
           java_initial s @
           map snd (filter (\<lambda>nf. py_contains skip ''all'' = Some True \<or>
                                  py_contains skip (fst nf) = Some True) skip_order)"
proof -
  from assms obtain s1 s2 s3 where
    1: "skip_flag skip ''checksum'' ''--checksum-algorithm=File-Size-64'' s = Inr s1" and
    2: "skip_flag skip ''thumbnails'' ''--no-thumbnails'' s1 = Inr s2" and
    3: "skip_flag skip ''minmax'' ''--no-stats-info'' s2 = Inr s3" and
    4: "skip_flag skip ''upgrade'' ''--no-upgrade-check'' s3 = Inr s'"
    by (auto simp: set_skip_values_def bind_err_def split: sum.splits)
  show ?thesis
    unfolding skip_flag_java_initial [OF 4] skip_flag_java_initial [OF 3]
      skip_flag_java_initial [OF 2] skip_flag_java_initial [OF 1]
    by (simp add: skip_order_def)
qed

lemma set_skip_arguments_java_initial:
  assumes "set_skip_arguments a s = Inr s'"
  shows "\<exists>sk. map_of a ''skip'' = Some sk \<and>
           java_initial s' =
             java_initial s @
             (if truthy sk then
                map snd (filter (\<lambda>nf. py_contains sk ''all'' = Some True \<or>
                                       py_contains sk (fst nf) = Some True) skip_order)
              else [])"
  using assms
  by (auto simp: set_skip_arguments_def arg_lookup_def bind_err_def
           split: option.splits if_splits dest: set_skip_values_java_initial)

lemma set_login_arguments_java_initial:
  assumes "set_login_arguments conn a (empty_arguments a) = Inr s1"
  shows "\<exists>jh. map_of a ''javahelp'' = Some jh \<and>
     (truthy jh \<longrightarrow> java_initial s1 = [''-h'']) \<and>
     (\<not> truthy jh \<longrightarrow>
        (\<exists>fv. map_of a ''f'' = Some fv \<and>
           (truthy fv \<longrightarrow> java_initial s1 = []) \<and>
           (\<not> truthy fv \<longrightarrow>
              (\<exists>ah. map_of a ''advanced_help'' = Some ah \<and>
                 (truthy ah \<longrightarrow> java_initial s1 = []) \<and>
                 (\<not> truthy ah \<longrightarrow>
                    (\<exists>host port session. conn = Inr (host, port, session) \<and>
                       java_initial s1 = [''-s'', host, ''-p'', port, ''-k'', session]))))))"
  using assms
  by (auto simp: set_login_arguments_def arg_lookup_def bind_err_def Let_def empty_arguments_def
           split: option.splits if_splits sum.splits prod.splits)

lemma init_key_py_lists:
  "py_additional (init_key kv s) = py_additional s"
  "py_initial (init_key kv s) =
     py_initial s @ (if fst kv \<in> set py_keys then build_arg_list (fst kv) (snd kv) else [])"
  by (simp_all add: init_key_def Let_def setattr_def append_arg_def)

lemma fold_init_key_py_additional:
  "py_additional (fold init_key a s) = py_additional s"
  by (induction a arbitrary: s) (simp_all add: init_key_py_lists)

lemma fold_init_key_py_initial:
  "py_initial (fold init_key a s) =
     py_initial s @
       concat (map (\<lambda>kv. build_arg_list (fst kv) (snd kv))
                 (filter (\<lambda>kv. fst kv \<in> set py_keys) a))"
  by (induction a arbitrary: s) (simp_all add: init_key_py_lists)

lemma before_keys_java_initial:
  assumes "before_keys conn a = Inr s2"
  shows "\<exists>login jh sk.
     map_of a ''javahelp'' = Some jh \<and> map_of a ''skip'' = Some sk \<and>
     java_initial s2 =
       login @
       (if truthy sk then
          map snd (filter (\<lambda>nf. py_contains sk ''all'' = Some True \<or>
                                 py_contains sk (fst nf) = Some True) skip_order)
        else []) \<and>
     (truthy jh \<longrightarrow> login = [''-h'']) \<and>
     (\<not> truthy jh \<longrightarrow>
        (\<exists>fv. map_of a ''f'' = Some fv \<and>
           (truthy fv \<longrightarrow> login = []) \<and>
           (\<not> truthy fv \<longrightarrow>
              (\<exists>ah. map_of a ''advanced_help'' = Some ah \<and>
                 (truthy ah \<longrightarrow> login = []) \<and>
                 (\<not> truthy ah \<longrightarrow>
                    (\<exists>host port session. conn = Inr (host, port, session) \<and>
                       login = [''-s'', host, ''-p'', port, ''-k'', session]))))))"
proof -
  from assms obtain s1 where
    1: "set_login_arguments conn a (empty_arguments a) = Inr s1" and
    2: "set_skip_arguments a s1 = Inr s2"
    by (auto simp: before_keys_def bind_err_def split: sum.splits)
  from set_skip_arguments_java_initial [OF 2] obtain sk where
    sk: "map_of a ''skip'' = Some sk" and
    j2: "java_initial s2 =
           java_initial s1 @
           (if truthy sk then
              map snd (filter (\<lambda>nf. py_contains sk ''all'' = Some True \<or>
                                     py_contains sk (fst nf) = Some True) skip_order)
            else [])"
    by blast
  from set_login_arguments_java_initial [OF 1] obtain jh where
    jh: "map_of a ''javahelp'' = Some jh" and
    l: "(truthy jh \<longrightarrow> java_initial s1 = [''-h'']) \<and>
     (\<not> truthy jh \<longrightarrow>
        (\<exists>fv. map_of a ''f'' = Some fv \<and>
           (truthy fv \<longrightarrow> java_initial s1 = []) \<and>
           (\<not> truthy fv \<longrightarrow>
              (\<exists>ah. map_of a ''advanced_help'' = Some ah \<and>
                 (truthy ah \<longrightarrow> java_initial s1 = []) \<and>
                 (\<not> truthy ah \<longrightarrow>
                    (\<exists>host port session. conn = Inr (host, port, session) \<and>
                       java_initial s1 = [''-s'', host, ''-p'', port, ''-k'', session]))))))"
    by blast
  show ?thesis
    by (intro exI [of _ "java_initial s1"] exI [of _ jh] exI [of _ sk] conjI jh sk j2
          l [THEN conjunct1] l [THEN conjunct2])
qed

text \<open>
  C8, as stated, at two orchestrator keys. \<open>JAVA_DEBUG\<close> and \<open>path\<close> are keys of
  \<open>py_keys\<close>; once \<open>add\<close> has set them, the vector that \<open>java_args\<close> returns holds
  \<open>--debug=ALL\<close> and the path \<open>a.tif\<close>. The vector of the constructed example holds
  \<open>--no-stats-info\<close> as well, which the constructor gave for the orchestrator key
  \<open>skip\<close>.
\<close>

theorem orchestrator_values_reach_external_vector:
  "''JAVA_DEBUG'' \<in> set py_keys \<and> ''path'' \<in> set py_keys \<and>
   java_args example_arguments =
     Inr (map PStr [''-s'', ''h'', ''-p'', ''4064'', ''-k'', ''sess'', ''--no-stats-info'',
                    ''-n'', ''x'']) \<and>
   bind_err (add ''JAVA_DEBUG'' (PStr ''ALL'') example_arguments) java_args =
     Inr (map PStr [''-s'', ''h'', ''-p'', ''4064'', ''-k'', ''sess'', ''--no-stats-info'',
                    ''-n'', ''x'', ''--debug=ALL'']) \<and>
   bind_err (add ''path'' (PList [PStr ''a.tif'']) example_arguments) java_args =
     Inr (map PStr [''-s'', ''h'', ''-p'', ''4064'', ''-k'', ''sess'', ''--no-stats-info'',
                    ''-n'', ''x'', ''a.tif''])"
  by (simp add: add_def example_py_keys example_arguments_def place_arg_def bind_err_def
        append_arg_def build_arg_list_def NO_ARG_def Let_def java_args_def getattr_def
        setattr_def replace_underscores_def)

text \<open>
  C8, amended. An orchestrator key (a key of \<open>py_keys\<close>) that is set, by \<open>add\<close> or by the
  constructor, becomes an attribute of the instance holding the value given, and its
  rendition by \<open>build_arg_list\<close> goes to the lists of Python arguments only: \<open>add\<close>
  leaves the two lists of external flags and every other attribute as they were, and
  the constructor leaves both additional lists empty. The vector \<open>java_args\<close> returns
  is made of the initial external flags, the additional external flags, the elements of
  the attribute \<open>path\<close>, and \<open>--debug=\<close> with the text of \<open>JAVA_DEBUG\<close> when that
  attribute is truthy. So \<open>add\<close> of a key other than \<open>path\<close> and \<open>JAVA_DEBUG\<close> leaves
  the vector unchanged, while the values of these two keys are in it. After the
  constructor the initial external flags are \<open>-h\<close> when \<open>javahelp\<close> is set, and
  otherwise the \<open>-s\<close>, \<open>-p\<close> and \<open>-k\<close> of the connection unless \<open>f\<close> or
  \<open>advanced_help\<close> is set; then the flags of the skip shortcuts; then the renditions
  of the truthy options that are not orchestrator keys.
\<close>

theorem orchestrator_key_live_attribute:
  assumes "key \<in> set py_keys"
  shows
    "(\<exists>s'. add key val s = Inr s' \<and> getattr s' key = Some val \<and>
           (\<forall>k. k \<noteq> key \<longrightarrow> getattr s' k = getattr s k) \<and>
           java_initial s' = java_initial s \<and> java_additional s' = java_additional s \<and>
           py_initial s' = py_initial s \<and>
           py_additional s' =
             (case map_of (added s) key of
                None \<Rightarrow> py_additional s @ build_arg_list key val
              | Some i \<Rightarrow> reset_arg (py_additional s) i key val) \<and>
           (key \<noteq> ''path'' \<and> key \<noteq> ''JAVA_DEBUG'' \<longrightarrow> java_args s' = java_args s) \<and>
           (\<forall>p ps d ds.
              getattr s' ''path'' = Some p \<and> py_iter p = Some ps \<and>
              getattr s' ''JAVA_DEBUG'' = Some d \<and> (truthy d \<longrightarrow> py_str d = Some ds) \<longrightarrow>
              java_args s' =
                Inr (map PStr (java_initial s) @ map PStr (java_additional s) @ ps @
                     (if truthy d then [PStr (''--debug='' @ ds)] else [])))) \<and>
     (distinct (map fst a) \<and> (key, val) \<in> set a \<and> new_command_arguments conn a = Inr sc \<longrightarrow>
        getattr sc key = Some val \<and> java_additional sc = [] \<and> py_additional sc = [] \<and>
        py_initial sc =
          concat (map (\<lambda>kv. build_arg_list (fst kv) (snd kv))
                    (filter (\<lambda>kv. fst kv \<in> set py_keys) a)) \<and>
        (\<exists>login jh sk.
           map_of a ''javahelp'' = Some jh \<and> map_of a ''skip'' = Some sk \<and>
           java_initial sc =
             login @
             (if truthy sk then
                map snd (filter (\<lambda>nf. py_contains sk ''all'' = Some True \<or>
                                       py_contains sk (fst nf) = Some True) skip_order)
              else []) @
             concat (map (\<lambda>kv. build_arg_list (fst kv) (snd kv))
                       (filter (\<lambda>kv. fst kv \<notin> set py_keys \<and> truthy (snd kv)) a)) \<and>
           (truthy jh \<longrightarrow> login = [''-h'']) \<and>
           (\<not> truthy jh \<longrightarrow>
              (\<exists>fv. map_of a ''f'' = Some fv \<and>
                 (truthy fv \<longrightarrow> login = []) \<and>
                 (\<not> truthy fv \<longrightarrow>
                    (\<exists>ah. map_of a ''advanced_help'' = Some ah \<and>
                       (truthy ah \<longrightarrow> login = []) \<and>
                       (\<not> truthy ah \<longrightarrow>
                          (\<exists>host port session. conn = Inr (host, port, session) \<and>
                             login = [''-s'', host, ''-p'', port, ''-k'', session]))))))) \<and>
        (\<forall>p ps d ds.
           map_of a ''path'' = Some p \<and> py_iter p = Some ps \<and>
           map_of a ''JAVA_DEBUG'' = Some d \<and> (truthy d \<longrightarrow> py_str d = Some ds) \<longrightarrow>
           java_args sc =
             Inr (map PStr (java_initial sc) @ ps @
                  (if truthy d then [PStr (''--debug='' @ ds)] else []))))"
proof (rule conjI)
  let ?s' = "place_arg PyAdditional (map_of (added s) key) key val (setattr key val s)"
  have a: "add key val s = Inr ?s'"
    using assms by (rule add_py_key)
  have g: "getattr ?s' k = (if k = key then Some val else getattr s k)" for k
    by (simp add: getattr_place_arg getattr_setattr)
  have ji: "java_initial ?s' = java_initial s" and ja: "java_additional ?s' = java_additional s"
    by (simp_all add: place_arg_py_frame setattr_frame)
  have pi: "py_initial ?s' = py_initial s"
    by (simp add: place_arg_py_lists setattr_frame)
  have pa: "py_additional ?s' =
             (case map_of (added s) key of
                None \<Rightarrow> py_additional s @ build_arg_list key val
              | Some i \<Rightarrow> reset_arg (py_additional s) i key val)"
    by (simp add: place_arg_py_lists setattr_frame split: option.splits)
  have same: "key \<noteq> ''path'' \<and> key \<noteq> ''JAVA_DEBUG'' \<longrightarrow> java_args ?s' = java_args s"
  proof
    assume "key \<noteq> ''path'' \<and> key \<noteq> ''JAVA_DEBUG''"
    then show "java_args ?s' = java_args s"
      by (intro java_args_cong ji ja) (auto simp: g)
  qed
  have vec: "\<forall>p ps d ds.
              getattr ?s' ''path'' = Some p \<and> py_iter p = Some ps \<and>
              getattr ?s' ''JAVA_DEBUG'' = Some d \<and> (truthy d \<longrightarrow> py_str d = Some ds) \<longrightarrow>
              java_args ?s' =
                Inr (map PStr (java_initial s) @ map PStr (java_additional s) @ ps @
                     (if truthy d then [PStr (''--debug='' @ ds)] else []))"
  proof (intro allI impI)
    fix p ps d ds
    assume h: "getattr ?s' ''path'' = Some p \<and> py_iter p = Some ps \<and>
               getattr ?s' ''JAVA_DEBUG'' = Some d \<and> (truthy d \<longrightarrow> py_str d = Some ds)"
    from java_args_vector [of ?s' p ps d ds] h
    show "java_args ?s' =
            Inr (map PStr (java_initial s) @ map PStr (java_additional s) @ ps @
                 (if truthy d then [PStr (''--debug='' @ ds)] else []))"
      unfolding ji ja by blast
  qed
  have gk: "getattr ?s' key = Some val" and go: "\<forall>k. k \<noteq> key \<longrightarrow> getattr ?s' k = getattr s k"
    by (simp_all add: g)
  show "\<exists>s'. add key val s = Inr s' \<and> getattr s' key = Some val \<and>
           (\<forall>k. k \<noteq> key \<longrightarrow> getattr s' k = getattr s k) \<and>
           java_initial s' = java_initial s \<and> java_additional s' = java_additional s \<and>
           py_initial s' = py_initial s \<and>
           py_additional s' =
             (case map_of (added s) key of
                None \<Rightarrow> py_additional s @ build_arg_list key val
              | Some i \<Rightarrow> reset_arg (py_additional s) i key val) \<and>
           (key \<noteq> ''path'' \<and> key \<noteq> ''JAVA_DEBUG'' \<longrightarrow> java_args s' = java_args s) \<and>
           (\<forall>p ps d ds.
              getattr s' ''path'' = Some p \<and> py_iter p = Some ps \<and>
              getattr s' ''JAVA_DEBUG'' = Some d \<and> (truthy d \<longrightarrow> py_str d = Some ds) \<longrightarrow>
              java_args s' =
                Inr (map PStr (java_initial s) @ map PStr (java_additional s) @ ps @
                     (if truthy d then [PStr (''--debug='' @ ds)] else [])))"
    by (intro exI [of _ ?s'] conjI a gk go ji ja pi pa same vec)
next
  show "distinct (map fst a) \<and> (key, val) \<in> set a \<and> new_command_arguments conn a = Inr sc \<longrightarrow>
        getattr sc key = Some val \<and> java_additional sc = [] \<and> py_additional sc = [] \<and>
        py_initial sc =
          concat (map (\<lambda>kv. build_arg_list (fst kv) (snd kv))
                    (filter (\<lambda>kv. fst kv \<in> set py_keys) a)) \<and>
        (\<exists>login jh sk.
           map_of a ''javahelp'' = Some jh \<and> map_of a ''skip'' = Some sk \<and>
           java_initial sc =
             login @
             (if truthy sk then
                map snd (filter (\<lambda>nf. py_contains sk ''all'' = Some True \<or>
                                       py_contains sk (fst nf) = Some True) skip_order)
              else []) @
             concat (map (\<lambda>kv. build_arg_list (fst kv) (snd kv))
                       (filter (\<lambda>kv. fst kv \<notin> set py_keys \<and> truthy (snd kv)) a)) \<and>
           (truthy jh \<longrightarrow> login = [''-h'']) \<and>
           (\<not> truthy jh \<longrightarrow>
              (\<exists>fv. map_of a ''f'' = Some fv \<and>
                 (truthy fv \<longrightarrow> login = []) \<and>
                 (\<not> truthy fv \<longrightarrow>
                    (\<exists>ah. map_of a ''advanced_help'' = Some ah \<and>
                       (truthy ah \<longrightarrow> login = []) \<and>
                       (\<not> truthy ah \<longrightarrow>
                          (\<exists>host port session. conn = Inr (host, port, session) \<and>
                             login = [''-s'', host, ''-p'', port, ''-k'', session]))))))) \<and>
        (\<forall>p ps d ds.
           map_of a ''path'' = Some p \<and> py_iter p = Some ps \<and>
           map_of a ''JAVA_DEBUG'' = Some d \<and> (truthy d \<longrightarrow> py_str d = Some ds) \<longrightarrow>
           java_args sc =
             Inr (map PStr (java_initial sc) @ ps @
                  (if truthy d then [PStr (''--debug='' @ ds)] else [])))"
  proof (intro impI)
    assume h: "distinct (map fst a) \<and> (key, val) \<in> set a \<and> new_command_arguments conn a = Inr sc"
    then have dist: "distinct (map fst a)" and mem: "(key, val) \<in> set a"
      by simp_all
    from h obtain s2 where s2: "before_keys conn a = Inr s2" and sc: "sc = fold init_key a s2"
      using new_command_arguments_fold by blast
    note o = only_java_initial_fields [OF before_keys_only_java_initial [OF s2]]
    have 1: "getattr sc key = Some val"
      using dist mem assms by (simp add: sc fold_init_key_attr)
    have 2: "java_additional sc = []"
      using o(1) by (simp add: sc fold_init_key_java_additional empty_arguments_def)
    have 3: "py_additional sc = []"
      using o(3) by (simp add: sc fold_init_key_py_additional empty_arguments_def)
    have 4: "py_initial sc =
          concat (map (\<lambda>kv. build_arg_list (fst kv) (snd kv))
                    (filter (\<lambda>kv. fst kv \<in> set py_keys) a))"
      using o(4) by (simp add: sc fold_init_key_py_initial empty_arguments_def)
    from before_keys_java_initial [OF s2] obtain login jh sk where
      jh: "map_of a ''javahelp'' = Some jh" and sk: "map_of a ''skip'' = Some sk" and
      j2: "java_initial s2 =
             login @
             (if truthy sk then
                map snd (filter (\<lambda>nf. py_contains sk ''all'' = Some True \<or>
                                       py_contains sk (fst nf) = Some True) skip_order)
              else [])" and
      l1: "truthy jh \<longrightarrow> login = [''-h'']" and
      l2: "\<not> truthy jh \<longrightarrow>
              (\<exists>fv. map_of a ''f'' = Some fv \<and>
                 (truthy fv \<longrightarrow> login = []) \<and>
                 (\<not> truthy fv \<longrightarrow>
                    (\<exists>ah. map_of a ''advanced_help'' = Some ah \<and>
                       (truthy ah \<longrightarrow> login = []) \<and>
                       (\<not> truthy ah \<longrightarrow>
                          (\<exists>host port session. conn = Inr (host, port, session) \<and>
                             login = [''-s'', host, ''-p'', port, ''-k'', session])))))"
      by blast
    have j: "java_initial sc =
             login @
             (if truthy sk then
                map snd (filter (\<lambda>nf. py_contains sk ''all'' = Some True \<or>
                                       py_contains sk (fst nf) = Some True) skip_order)
              else []) @
             concat (map (\<lambda>kv. build_arg_list (fst kv) (snd kv))
                       (filter (\<lambda>kv. fst kv \<notin> set py_keys \<and> truthy (snd kv)) a))"
      unfolding sc fold_init_key_java_initial j2 by simp
    have 5: "\<exists>login jh sk.
           map_of a ''javahelp'' = Some jh \<and> map_of a ''skip'' = Some sk \<and>
           java_initial sc =
             login @
             (if truthy sk then
                map snd (filter (\<lambda>nf. py_contains sk ''all'' = Some True \<or>
                                       py_contains sk (fst nf) = Some True) skip_order)
              else []) @
             concat (map (\<lambda>kv. build_arg_list (fst kv) (snd kv))
                       (filter (\<lambda>kv. fst kv \<notin> set py_keys \<and> truthy (snd kv)) a)) \<and>
           (truthy jh \<longrightarrow> login = [''-h'']) \<and>
           (\<not> truthy jh \<longrightarrow>
              (\<exists>fv. map_of a ''f'' = Some fv \<and>
                 (truthy fv \<longrightarrow> login = []) \<and>
                 (\<not> truthy fv \<longrightarrow>
                    (\<exists>ah. map_of a ''advanced_help'' = Some ah \<and>
                       (truthy ah \<longrightarrow> login = []) \<and>
                       (\<not> truthy ah \<longrightarrow>
                          (\<exists>host port session. conn = Inr (host, port, session) \<and>
                             login = [''-s'', host, ''-p'', port, ''-k'', session]))))))"
      by (intro exI [of _ login] exI [of _ jh] exI [of _ sk] conjI jh sk j l1 l2)
    have 6: "\<forall>p ps d ds.
           map_of a ''path'' = Some p \<and> py_iter p = Some ps \<and>
           map_of a ''JAVA_DEBUG'' = Some d \<and> (truthy d \<longrightarrow> py_str d = Some ds) \<longrightarrow>
           java_args sc =
             Inr (map PStr (java_initial sc) @ ps @
                  (if truthy d then [PStr (''--debug='' @ ds)] else []))"
    proof (intro allI impI)
      fix p ps d ds
      assume v: "map_of a ''path'' = Some p \<and> py_iter p = Some ps \<and>
                 map_of a ''JAVA_DEBUG'' = Some d \<and> (truthy d \<longrightarrow> py_str d = Some ds)"
      then have "(''path'', p) \<in> set a" "(''JAVA_DEBUG'', d) \<in> set a"
        by (auto dest: map_of_SomeD)
      then have gp: "getattr sc ''path'' = Some p" and gd: "getattr sc ''JAVA_DEBUG'' = Some d"
        using dist by (simp_all add: sc fold_init_key_attr example_py_keys)
      from java_args_vector [OF gp _ gd, of ps ds] v
      show "java_args sc =
             Inr (map PStr (java_initial sc) @ ps @
                  (if truthy d then [PStr (''--debug='' @ ds)] else []))"
        by (simp add: 2)
    qed
    from 1 2 3 4 5 6
    show "getattr sc key = Some val \<and> java_additional sc = [] \<and> py_additional sc = [] \<and>
        py_initial sc =
          concat (map (\<lambda>kv. build_arg_list (fst kv) (snd kv))
                    (filter (\<lambda>kv. fst kv \<in> set py_keys) a)) \<and>
        (\<exists>login jh sk.
           map_of a ''javahelp'' = Some jh \<and> map_of a ''skip'' = Some sk \<and>
           java_initial sc =
             login @
             (if truthy sk then
                map snd (filter (\<lambda>nf. py_contains sk ''all'' = Some True \<or>
                                       py_contains sk (fst nf) = Some True) skip_order)
              else []) @
             concat (map (\<lambda>kv. build_arg_list (fst kv) (snd kv))
                       (filter (\<lambda>kv. fst kv \<notin> set py_keys \<and> truthy (snd kv)) a)) \<and>
           (truthy jh \<longrightarrow> login = [''-h'']) \<and>
           (\<not> truthy jh \<longrightarrow>
              (\<exists>fv. map_of a ''f'' = Some fv \<and>
                 (truthy fv \<longrightarrow> login = []) \<and>
                 (\<not> truthy fv \<longrightarrow>
                    (\<exists>ah. map_of a ''advanced_help'' = Some ah \<and>
                       (truthy ah \<longrightarrow> login = []) \<and>
                       (\<not> truthy ah \<longrightarrow>
                          (\<exists>host port session. conn = Inr (host, port, session) \<and>
                             login = [''-s'', host, ''-p'', port, ''-k'', session]))))))) \<and>
        (\<forall>p ps d ds.
           map_of a ''path'' = Some p \<and> py_iter p = Some ps \<and>
           map_of a ''JAVA_DEBUG'' = Some d \<and> (truthy d \<longrightarrow> py_str d = Some ds) \<longrightarrow>
           java_args sc =
             Inr (map PStr (java_initial sc) @ ps @
                  (if truthy d then [PStr (''--debug='' @ ds)] else [])))"
      by (intro conjI)
  qed
qed

theorem orchestrator_key_live_attribute_witness:
  "(\<exists>s'. add ''bulk'' (PStr ''c.yml'') example_arguments = Inr s' \<and>
         getattr s' ''bulk'' = Some (PStr ''c.yml'') \<and>
         py_additional s' = [''--bulk=c.yml''] \<and>
         java_args s' = java_args example_arguments) \<and>
   (\<exists>s'. add ''JAVA_DEBUG'' (PStr ''ALL'') example_arguments = Inr s' \<and>
         getattr s' ''JAVA_DEBUG'' = Some (PStr ''ALL'') \<and>
         java_args s' =
           Inr (map PStr [''-s'', ''h'', ''-p'', ''4064'', ''-k'', ''sess'', ''--no-stats-info'',
                          ''-n'', ''x'', ''--debug=ALL''])) \<and>
   new_command_arguments example_conn example_args = Inr example_arguments \<and>
   getattr example_arguments ''bulk'' = Some (PStr ''b.yml'') \<and>
   py_initial example_arguments =
     [''--javahelp'', ''--skip'', ''--bulk=b.yml'', ''--file'', ''--errs'', ''--logprefix'',
      ''--path'', ''--JAVA-DEBUG''] \<and>
   java_args example_arguments =
     Inr (map PStr [''-s'', ''h'', ''-p'', ''4064'', ''-k'', ''sess'', ''--no-stats-info'',
                    ''-n'', ''x''])"
proof -
  have k: "''bulk'' \<in> set py_keys" and kd: "''JAVA_DEBUG'' \<in> set py_keys"
    by (simp_all add: py_keys_def)
  have d: "distinct (map fst example_args)"
    by (simp add: example_args_def)
  have m: "(''bulk'', PStr ''b.yml'') \<in> set example_args"
    by (simp add: example_args_def)
  have ad: "map_of (added example_arguments) ''bulk'' = None"
    by (simp add: example_arguments_def)
  have pa: "py_additional example_arguments = []"
    by (simp add: example_arguments_def)
  have bl: "build_arg_list ''bulk'' (PStr ''c.yml'') = [''--bulk=c.yml'']"
    by (simp add: build_arg_list_def NO_ARG_def replace_underscores_def)
  note t1 = orchestrator_key_live_attribute
              [OF k, where val = "PStr ''c.yml''" and s = example_arguments, THEN conjunct1]
  then obtain s1 where
    a1: "add ''bulk'' (PStr ''c.yml'') example_arguments = Inr s1" and
    g1: "getattr s1 ''bulk'' = Some (PStr ''c.yml'')" and
    p1: "py_additional s1 =
           (case map_of (added example_arguments) ''bulk'' of
              None \<Rightarrow> py_additional example_arguments @ build_arg_list ''bulk'' (PStr ''c.yml'')
            | Some i \<Rightarrow> reset_arg (py_additional example_arguments) i ''bulk'' (PStr ''c.yml''))" and
    j1: "''bulk'' \<noteq> ''path'' \<and> ''bulk'' \<noteq> ''JAVA_DEBUG'' \<longrightarrow>
           java_args s1 = java_args example_arguments"
    by blast
  have 1: "\<exists>s'. add ''bulk'' (PStr ''c.yml'') example_arguments = Inr s' \<and>
         getattr s' ''bulk'' = Some (PStr ''c.yml'') \<and>
         py_additional s' = [''--bulk=c.yml''] \<and>
         java_args s' = java_args example_arguments"
    using a1 g1 p1 j1 by (intro exI [of _ s1]) (simp add: ad pa bl)
  note t2 = orchestrator_key_live_attribute
              [OF kd, where val = "PStr ''ALL''" and s = example_arguments, THEN conjunct1]
  then obtain s2 where
    a2: "add ''JAVA_DEBUG'' (PStr ''ALL'') example_arguments = Inr s2" and
    g2: "getattr s2 ''JAVA_DEBUG'' = Some (PStr ''ALL'')" and
    o2: "\<forall>k. k \<noteq> ''JAVA_DEBUG'' \<longrightarrow> getattr s2 k = getattr example_arguments k" and
    v2: "\<forall>p ps d ds.
           getattr s2 ''path'' = Some p \<and> py_iter p = Some ps \<and>
           getattr s2 ''JAVA_DEBUG'' = Some d \<and> (truthy d \<longrightarrow> py_str d = Some ds) \<longrightarrow>
           java_args s2 =
             Inr (map PStr (java_initial example_arguments) @
                  map PStr (java_additional example_arguments) @ ps @
                  (if truthy d then [PStr (''--debug='' @ ds)] else []))"
    by blast
  from o2 have "getattr s2 ''path'' = getattr example_arguments ''path''"
    by simp
  then have gp: "getattr s2 ''path'' = Some (PList [])"
    by (simp add: example_arguments_def getattr_def)
  from v2 [rule_format, of "PList []" "[]" "PStr ''ALL''" "''ALL''"] gp g2
  have "java_args s2 =
          Inr (map PStr (java_initial example_arguments) @
               map PStr (java_additional example_arguments) @ [] @
               (if truthy (PStr ''ALL'') then [PStr (''--debug='' @ ''ALL'')] else []))"
    by simp
  then have j2: "java_args s2 =
           Inr (map PStr [''-s'', ''h'', ''-p'', ''4064'', ''-k'', ''sess'', ''--no-stats-info'',
                          ''-n'', ''x'', ''--debug=ALL''])"
    by (simp add: example_arguments_def)
  have 2: "\<exists>s'. add ''JAVA_DEBUG'' (PStr ''ALL'') example_arguments = Inr s' \<and>
         getattr s' ''JAVA_DEBUG'' = Some (PStr ''ALL'') \<and>
         java_args s' =
           Inr (map PStr [''-s'', ''h'', ''-p'', ''4064'', ''-k'', ''sess'', ''--no-stats-info'',
                          ''-n'', ''x'', ''--debug=ALL''])"
    using a2 g2 j2 by (intro exI [of _ s2]) simp
  note t3 = orchestrator_key_live_attribute
              [OF k, where a = example_args and val = "PStr ''b.yml''" and conn = example_conn
                 and sc = example_arguments, THEN conjunct2, rule_format]
  have h3: "distinct (map fst example_args) \<and> (''bulk'', PStr ''b.yml'') \<in> set example_args \<and>
            new_command_arguments example_conn example_args = Inr example_arguments"
    using d m example_arguments_constructed by simp
  note c3 = t3 [OF h3]
  from c3 have 3: "getattr example_arguments ''bulk'' = Some (PStr ''b.yml'')"
    by (rule conjunct1)
  from c3 have "py_initial example_arguments =
          concat (map (\<lambda>kv. build_arg_list (fst kv) (snd kv))
                    (filter (\<lambda>kv. fst kv \<in> set py_keys) example_args))"
    by blast
  then have 4: "py_initial example_arguments =
     [''--javahelp'', ''--skip'', ''--bulk=b.yml'', ''--file'', ''--errs'', ''--logprefix'',
      ''--path'', ''--JAVA-DEBUG'']"
    by (simp add: example_args_def example_py_keys build_arg_list_def NO_ARG_def
          replace_underscores_def)
  from c3 obtain login jh sk where
    jh: "map_of example_args ''javahelp'' = Some jh" and
    sk: "map_of example_args ''skip'' = Some sk" and
    ji: "java_initial example_arguments =
             login @
             (if truthy sk then
                map snd (filter (\<lambda>nf. py_contains sk ''all'' = Some True \<or>
                                       py_contains sk (fst nf) = Some True) skip_order)
              else []) @
             concat (map (\<lambda>kv. build_arg_list (fst kv) (snd kv))
                       (filter (\<lambda>kv. fst kv \<notin> set py_keys \<and> truthy (snd kv)) example_args))" and
    l2: "\<not> truthy jh \<longrightarrow>
              (\<exists>fv. map_of example_args ''f'' = Some fv \<and>
                 (truthy fv \<longrightarrow> login = []) \<and>
                 (\<not> truthy fv \<longrightarrow>
                    (\<exists>ah. map_of example_args ''advanced_help'' = Some ah \<and>
                       (truthy ah \<longrightarrow> login = []) \<and>
                       (\<not> truthy ah \<longrightarrow>
                          (\<exists>host port session. example_conn = Inr (host, port, session) \<and>
                             login = [''-s'', host, ''-p'', port, ''-k'', session])))))"
    by blast
  from jh have jh': "jh = PBool False"
    by (simp add: example_args_def)
  from sk have sk': "sk = PList [PStr ''minmax'']"
    by (simp add: example_args_def)
  from l2 jh' obtain fv where
    fv: "map_of example_args ''f'' = Some fv" and
    l3: "\<not> truthy fv \<longrightarrow>
           (\<exists>ah. map_of example_args ''advanced_help'' = Some ah \<and>
              (truthy ah \<longrightarrow> login = []) \<and>
              (\<not> truthy ah \<longrightarrow>
                 (\<exists>host port session. example_conn = Inr (host, port, session) \<and>
                    login = [''-s'', host, ''-p'', port, ''-k'', session])))"
    by auto
  from fv have "fv = PBool False"
    by (simp add: example_args_def)
  with l3 obtain ah where
    ah: "map_of example_args ''advanced_help'' = Some ah" and
    l4: "\<not> truthy ah \<longrightarrow>
           (\<exists>host port session. example_conn = Inr (host, port, session) \<and>
              login = [''-s'', host, ''-p'', port, ''-k'', session])"
    by auto
  from ah have "ah = PBool False"
    by (simp add: example_args_def)
  with l4 have login: "login = [''-s'', ''h'', ''-p'', ''4064'', ''-k'', ''sess'']"
    by (auto simp: example_conn_def)
  have rest: "concat (map (\<lambda>kv. build_arg_list (fst kv) (snd kv))
                (filter (\<lambda>kv. fst kv \<notin> set py_keys \<and> truthy (snd kv)) example_args)) =
              [''-n'', ''x'']"
    by (simp add: example_args_def example_py_keys build_arg_list_def NO_ARG_def)
  have ji': "java_initial example_arguments =
               [''-s'', ''h'', ''-p'', ''4064'', ''-k'', ''sess'', ''--no-stats-info'', ''-n'', ''x'']"
    unfolding ji rest login sk' by (simp add: skip_order_def)
  from c3 have v3: "\<forall>p ps d ds.
           map_of example_args ''path'' = Some p \<and> py_iter p = Some ps \<and>
           map_of example_args ''JAVA_DEBUG'' = Some d \<and> (truthy d \<longrightarrow> py_str d = Some ds) \<longrightarrow>
           java_args example_arguments =
             Inr (map PStr (java_initial example_arguments) @ ps @
                  (if truthy d then [PStr (''--debug='' @ ds)] else []))"
    by blast
  have "map_of example_args ''path'' = Some (PList []) \<and> py_iter (PList []) = Some [] \<and>
        map_of example_args ''JAVA_DEBUG'' = Some PNone \<and> (truthy PNone \<longrightarrow> py_str PNone = Some [])"
    by (simp add: example_args_def)
  from v3 [rule_format, OF this]
  have 5: "java_args example_arguments =
     Inr (map PStr [''-s'', ''h'', ''-p'', ''4064'', ''-k'', ''sess'', ''--no-stats-info'',
                    ''-n'', ''x''])"
    unfolding ji' by simp
  from 1 2 example_arguments_constructed 3 4 5 show ?thesis
    by (intro conjI)
qed

text \<open>
  C2, at a concrete input. The key \<open>d\<close> is added with a value that is not a string (one
  token), then the key \<open>n\<close> with a string, then \<open>d\<close> again with a string (two tokens).
  The slice that \<open>reset_arg\<close> replaces is as long as the new rendition, so the second
  token of \<open>d\<close> overwrites the flag \<open>-n\<close> and leaves its value \<open>foo\<close> behind. The other
  way round, a rendition that shrinks from two tokens to one leaves the old value in
  the list.
\<close>

theorem readd_with_longer_rendition_overwrites_neighbour:
  "bind_err (add ''d'' (PInt 7) example_arguments) (\<lambda>s1.
   bind_err (add ''n'' (PStr ''foo'') s1) (\<lambda>s2.
   bind_err (add ''d'' (PStr ''12'') s2) (\<lambda>s3.
   bind_err (add ''n'' (PBool True) s2) (\<lambda>s4.
     Inr (java_additional s2, java_additional s3, java_additional s4))))) =
   Inr ([''-d'', ''-n'', ''foo''], [''-d'', ''12'', ''foo''], [''-d'', ''-n'', ''foo''])"
  by (simp add: add_def example_py_keys example_arguments_def place_arg_def bind_err_def
        append_arg_def reset_arg_def build_arg_list_def NO_ARG_def Let_def)

section \<open>The environment\<close>

text \<open>
  What the plugin reads from outside: the file system, the YAML, CSV and shlex
  libraries, \<open>os.path\<close>, and the external process. \<open>safe_load_file\<close> is
  \<open>open(bulkfile)\<close> followed by \<open>safe_load\<close>, by absolute path, and \<open>read_lines\<close> gives
  the lines of a text file, each with its line end, for a path resolved from a working
  directory; both are \<open>None\<close> when the file cannot be read. \<open>openable\<close> tells whether a file can be created and opened for writing.
  \<open>popen\<close> gives the exit status \<open>p.wait()\<close> returns for the launch options, the
  command and the number of invocations made before; \<open>None\<close> when the launch raises.
\<close>

record env =
  yaml_available :: bool
  abspath :: "string \<Rightarrow> string \<Rightarrow> string"
  dirname :: "string \<Rightarrow> string"
  safe_load_file :: "string \<Rightarrow> pyval option"
  read_lines :: "string \<Rightarrow> string \<Rightarrow> string list option"
  csv_reader :: "char \<Rightarrow> string list \<Rightarrow> string list list"
  shlex_split :: "string \<Rightarrow> string list option"
  openable :: "string \<Rightarrow> string \<Rightarrow> bool"
  popen :: "string list \<Rightarrow> pyval list \<Rightarrow> nat \<Rightarrow> int option"
  argv0 :: string

section \<open>Loading and merging the bulk files\<close>

text \<open>\<open>bulk.update(data)\<close>: a key that is present keeps its place, a new key goes last.\<close>

definition dict_update :: "pydict \<Rightarrow> pydict \<Rightarrow> pydict" where
  "dict_update bulk data = fold (\<lambda>kv. AList.update (fst kv) (snd kv)) data bulk"

text \<open>\<open>data.get(key)\<close>\<close>

definition dict_get :: "pydict \<Rightarrow> string \<Rightarrow> pyval" where
  "dict_get data key = (case map_of data key of None \<Rightarrow> PNone | Some v \<Rightarrow> v)"

type_synonym contents = "(string \<times> string \<times> pydict) list"

text \<open>
  The loop \<open>while bulkfile:\<close> that walks the includes. It need not end (a file may
  include itself), so the result is an option: \<open>None\<close> when the loop runs forever.
  The last component is the working directory the loop leaves.
\<close>

partial_function (option) load_contents ::
  "env \<Rightarrow> pyval \<Rightarrow> contents \<Rightarrow> string \<Rightarrow> ((error + contents) \<times> string) option" where
  "load_contents e bulkfile cs wd =
     (if \<not> truthy bulkfile then Some (Inr cs, wd)
      else (case bulkfile of
              PStr b \<Rightarrow>
                (case safe_load_file e (abspath e wd b) of
                   None \<Rightarrow> Some (Inl (IOError (abspath e wd b)), wd)
                 | Some loaded \<Rightarrow>
                     (case loaded of
                        PDict data \<Rightarrow>
                          load_contents e (dict_get data ''include'')
                            (cs @ [(abspath e wd b, dirname e (abspath e wd b), data)])
                            (dirname e (abspath e wd b))
                      | _ \<Rightarrow> Some (Inl (AttributeError ''get''), wd)))
            | _ \<Rightarrow> Some (Inl TypeError, wd)))"

text \<open>The loop \<open>for bulkfile, parent, data in reversed(contents)\<close>: the accumulated
  mapping and the working directory.\<close>

definition merge_step :: "string \<times> string \<times> pydict \<Rightarrow> pydict \<times> string \<Rightarrow> pydict \<times> string" where
  "merge_step c st = (dict_update (fst st) (snd (snd c)), fst (snd c))"

definition merge_contents :: "contents \<Rightarrow> string \<Rightarrow> pydict \<times> string" where
  "merge_contents cs wd = fold merge_step (rev cs) ([], wd)"

section \<open>Row sources\<close>

text \<open>The ASCII characters that \<open>str.strip()\<close> removes.\<close>

definition is_space :: "char \<Rightarrow> bool" where
  "is_space c = (of_char c \<in> set [9, 10, 11, 12, 13, 28, 29, 30, 31, 32 :: nat])"

definition lstrip :: "string \<Rightarrow> string" where
  "lstrip s = dropWhile is_space s"

definition rstrip :: "string \<Rightarrow> string" where
  "rstrip s = rev (dropWhile is_space (rev s))"

definition strip :: "string \<Rightarrow> string" where
  "strip s = rstrip (lstrip s)"

type_synonym rows = "(error + pyval list) list"

text \<open>
  The four generators. Each takes the path and opens the file; a generator that cannot
  open its file raises when the first row is asked for, which is a row list whose first
  item is the error. The working directory is the one the path is resolved from.
\<close>

definition open_lines :: "env \<Rightarrow> string \<Rightarrow> pyval \<Rightarrow> error + string list" where
  "open_lines e wd path =
     (case path of
        PStr p \<Rightarrow> (case read_lines e wd p of None \<Rightarrow> Inl (IOError p) | Some ls \<Rightarrow> Inr ls)
      | _ \<Rightarrow> Inl TypeError)"

definition parse_text :: "env \<Rightarrow> string \<Rightarrow> pyval \<Rightarrow> bool \<Rightarrow> rows" where
  "parse_text e wd path parse =
     (case open_lines e wd path of
        Inl err \<Rightarrow> [Inl err]
      | Inr ls \<Rightarrow>
          map (\<lambda>line.
                 if parse then
                   (case shlex_split e (strip line) of
                      None \<Rightarrow> Inl ValueError
                    | Some tokens \<Rightarrow> Inr [PList (map PStr tokens)])
                 else Inr [PStr (strip line)]) ls)"

definition parse_shlex :: "env \<Rightarrow> string \<Rightarrow> pyval \<Rightarrow> rows" where
  "parse_shlex e wd path = parse_text e wd path True"

definition parse_csv :: "env \<Rightarrow> string \<Rightarrow> pyval \<Rightarrow> char \<Rightarrow> rows" where
  "parse_csv e wd path delimiter =
     (case open_lines e wd path of
        Inl err \<Rightarrow> [Inl err]
      | Inr ls \<Rightarrow> map (\<lambda>r. Inr (map PStr r)) (csv_reader e delimiter ls))"

definition parse_tsv :: "env \<Rightarrow> string \<Rightarrow> pyval \<Rightarrow> rows" where
  "parse_tsv e wd path = parse_csv e wd path (CHR 0x09)"

datatype parser = Parse_text | Parse_shlex | Parse_tsv | Parse_csv

text \<open>The choice of \<open>function\<close> in \<open>parse_bulk\<close>.\<close>

definition select_function :: "pyval \<Rightarrow> pyval \<Rightarrow> error + parser" where
  "select_function cols path =
     (if \<not> truthy cols then Inr Parse_text
      else (case path of
              PStr p \<Rightarrow>
                Inr (if endswith p ''.tsv'' then Parse_tsv
                     else if endswith p ''.csv'' then Parse_csv
                     else Parse_shlex)
            | _ \<Rightarrow> Inl (AttributeError ''endswith'')))"

fun run_parser :: "parser \<Rightarrow> env \<Rightarrow> string \<Rightarrow> pyval \<Rightarrow> rows" where
  "run_parser Parse_text e wd path = parse_text e wd path False"
| "run_parser Parse_shlex e wd path = parse_shlex e wd path"
| "run_parser Parse_tsv e wd path = parse_tsv e wd path"
| "run_parser Parse_csv e wd path = parse_csv e wd path (CHR '','')"

section \<open>Precedence in the merged bulk file\<close>

lemma map_of_dict_update:
  "distinct (map fst data) \<Longrightarrow>
   map_of (dict_update bulk data) k =
     (case map_of data k of Some v \<Rightarrow> Some v | None \<Rightarrow> map_of bulk k)"
proof (induction data arbitrary: bulk)
  case Nil
  then show ?case by (simp add: dict_update_def)
next
  case (Cons kv data)
  have d: "distinct (map fst data)" and n: "fst kv \<notin> fst ` set data"
    using Cons.prems by auto
  have "dict_update bulk (kv # data) = dict_update (AList.update (fst kv) (snd kv) bulk) data"
    by (simp add: dict_update_def)
  then have "map_of (dict_update bulk (kv # data)) k =
      (case map_of data k of Some v \<Rightarrow> Some v
       | None \<Rightarrow> map_of (AList.update (fst kv) (snd kv) bulk) k)"
    using Cons.IH [OF d] by simp
  also have "\<dots> = (case map_of (kv # data) k of Some v \<Rightarrow> Some v | None \<Rightarrow> map_of bulk k)"
  proof (cases "k = fst kv")
    case True
    with n have "map_of data k = None"
      by (simp add: map_of_eq_None_iff)
    with True show ?thesis
      by (cases kv) (simp add: update_conv')
  next
    case False
    then show ?thesis
      by (cases kv) (auto simp: update_conv' split: option.splits)
  qed
  finally show ?case .
qed

lemma merge_contents_Cons:
  "merge_contents (c # cs) wd = merge_step c (merge_contents cs wd)"
  by (simp add: merge_contents_def)

lemma merge_contents_fst:
  "fst (merge_contents cs wd) = fold (\<lambda>c bulk. dict_update bulk (snd (snd c))) (rev cs) []"
proof (induction cs)
  case Nil
  show ?case by (simp add: merge_contents_def)
next
  case (Cons c cs)
  then show ?case
    by (simp add: merge_contents_Cons merge_step_def)
qed

lemma merge_contents_lookup:
  assumes "list_all (\<lambda>c. distinct (map fst (snd (snd c)))) cs"
    and "i < length cs"
    and "map_of (snd (snd (cs ! i))) k = Some v"
    and "\<forall>j<i. map_of (snd (snd (cs ! j))) k = None"
  shows "map_of (fst (merge_contents cs wd)) k = Some v"
  using assms
proof (induction cs arbitrary: i)
  case Nil
  then show ?case by simp
next
  case (Cons c cs)
  have d: "distinct (map fst (snd (snd c)))" and ds: "list_all (\<lambda>c. distinct (map fst (snd (snd c)))) cs"
    using Cons.prems(1) by simp_all
  have step: "map_of (fst (merge_contents (c # cs) wd)) k =
      (case map_of (snd (snd c)) k of Some v \<Rightarrow> Some v
       | None \<Rightarrow> map_of (fst (merge_contents cs wd)) k)"
    by (simp add: merge_contents_Cons merge_step_def map_of_dict_update [OF d])
  show ?case
  proof (cases i)
    case 0
    with Cons.prems(3) step show ?thesis by simp
  next
    case (Suc i')
    have c0: "map_of (snd (snd c)) k = None"
      using Cons.prems(4) Suc by auto
    have "\<forall>j<i'. map_of (snd (snd (cs ! j))) k = None"
      using Cons.prems(4) Suc by auto
    moreover have "i' < length cs" "map_of (snd (snd (cs ! i'))) k = Some v"
      using Cons.prems(2,3) Suc by simp_all
    ultimately have "map_of (fst (merge_contents cs wd)) k = Some v"
      using Cons.IH [OF ds] by blast
    with step c0 show ?thesis by simp
  qed
qed

text \<open>The two files of the example: \<open>A\<close> is the root and includes \<open>B\<close>.\<close>

definition example_A :: pydict where
  "example_A = [(''x'', PInt 1), (''include'', PStr ''B.yml'')]"

definition example_B :: pydict where
  "example_B = [(''x'', PInt 2), (''y'', PInt 3)]"

definition example_chain :: contents where
  "example_chain = [(''/w/A.yml'', ''/w'', example_A), (''/w/B.yml'', ''/w'', example_B)]"

lemma example_chain_merged:
  "fst (merge_contents example_chain wd) =
     [(''x'', PInt 1), (''y'', PInt 3), (''include'', PStr ''B.yml'')]"
  by (simp add: merge_contents_def merge_step_def dict_update_def example_chain_def
        example_A_def example_B_def)

text \<open>
  C1, as stated, at the example: the mapping merged from \<open>A = {x: 1, include: B}\<close> and
  \<open>B = {x: 2, y: 3}\<close> is not \<open>{x: 1, y: 3}\<close>. The root's \<open>include\<close> entry is merged like
  any other key and is in the result.
\<close>

theorem merged_example_keeps_include:
  "map_of (fst (merge_contents example_chain ''/w'')) ''include'' = Some (PStr ''B.yml'') \<and>
   map_of (fst (merge_contents example_chain ''/w'')) \<noteq> map_of [(''x'', PInt 1), (''y'', PInt 3)] \<and>
   fst (merge_contents example_chain ''/w'') \<noteq> [(''x'', PInt 1), (''y'', PInt 3)]"
proof -
  have 1: "map_of (fst (merge_contents example_chain ''/w'')) ''include'' = Some (PStr ''B.yml'')"
    by (simp add: example_chain_merged)
  have 2: "map_of [(''x'', PInt 1), (''y'', PInt 3)] ''include'' = None"
    by simp
  from 1 2 have 3: "map_of (fst (merge_contents example_chain ''/w'')) \<noteq>
                      map_of [(''x'', PInt 1), (''y'', PInt 3)]"
    by (metis option.distinct(1))
  have 4: "fst (merge_contents example_chain ''/w'') \<noteq> [(''x'', PInt 1), (''y'', PInt 3)]"
    by (simp add: example_chain_merged)
  from 1 3 4 show ?thesis by blast
qed

text \<open>
  C1, amended. The merged mapping is the chain's mappings applied with \<open>update\<close> from the
  deepest ancestor to the root. A key has the value of the file closest to the root that
  holds it: when the file at position \<open>i\<close> of the chain (the root is at 0) gives \<open>k\<close> the
  value \<open>v\<close> and no file before it holds \<open>k\<close>, the merged value of \<open>k\<close> is \<open>v\<close>. For the
  example the result is \<open>{x: 1, y: 3, include: B}\<close>: it keeps the \<open>include\<close> entry of the
  root.
\<close>

theorem merge_contents_root_wins:
  "fst (merge_contents cs wd) = fold (\<lambda>c bulk. dict_update bulk (snd (snd c))) (rev cs) [] \<and>
   (list_all (\<lambda>c. distinct (map fst (snd (snd c)))) cs \<and> i < length cs \<and>
    map_of (snd (snd (cs ! i))) k = Some v \<and>
    (\<forall>j<i. map_of (snd (snd (cs ! j))) k = None) \<longrightarrow>
      map_of (fst (merge_contents cs wd)) k = Some v) \<and>
   fst (merge_contents example_chain wd) =
     [(''x'', PInt 1), (''y'', PInt 3), (''include'', PStr ''B.yml'')]"
  using merge_contents_fst merge_contents_lookup example_chain_merged by blast

theorem merge_contents_root_wins_witness:
  "map_of (fst (merge_contents example_chain ''/w'')) ''x'' = Some (PInt 1) \<and>
   map_of (fst (merge_contents example_chain ''/w'')) ''y'' = Some (PInt 3)"
proof -
  have d: "list_all (\<lambda>c. distinct (map fst (snd (snd c)))) example_chain"
    by (simp add: example_chain_def example_A_def example_B_def)
  have x: "0 < length example_chain \<and>
           map_of (snd (snd (example_chain ! 0))) ''x'' = Some (PInt 1) \<and>
           (\<forall>j<0. map_of (snd (snd (example_chain ! j))) ''x'' = None)"
    by (simp add: example_chain_def example_A_def)
  have y: "1 < length example_chain \<and>
           map_of (snd (snd (example_chain ! 1))) ''y'' = Some (PInt 3) \<and>
           (\<forall>j<1. map_of (snd (snd (example_chain ! j))) ''y'' = None)"
    by (simp add: example_chain_def example_A_def example_B_def)
  from merge_contents_root_wins [of example_chain "''/w''" 0 "''x''" "PInt 1"] d x
  have 1: "map_of (fst (merge_contents example_chain ''/w'')) ''x'' = Some (PInt 1)"
    by blast
  from merge_contents_root_wins [of example_chain "''/w''" 1 "''y''" "PInt 3"] d y
  have 2: "map_of (fst (merge_contents example_chain ''/w'')) ''y'' = Some (PInt 3)"
    by blast
  from 1 2 show ?thesis by blast
qed

section \<open>Choice of the row parser\<close>

text \<open>An environment for the examples: one bulk file chain, three row-source files, an
  external process whose second invocation fails with status 3.\<close>

definition example_env :: env where
  "example_env =
     \<lparr>yaml_available = True,
      abspath = (\<lambda>wd p. if take 1 p = ''/'' then p else wd @ ''/'' @ p),
      dirname = (\<lambda>p. ''/w''),
      safe_load_file =
        map_of [(''/w/A.yml'', PDict example_A), (''/w/B.yml'', PDict example_B)],
      read_lines =
        (\<lambda>wd. map_of
                  [(''files.txt'', [''  a.tif '' @ [CHR 0x0A], ''b.tif'' @ [CHR 0x0A], ''c.tif'']),
                   (''rows.txt'', [''foo img.tif'' @ [CHR 0x0A]]),
                   (''rows.csv'', [''img.tif,Sample1'' @ [CHR 0x0A]])]),
      csv_reader =
        (\<lambda>d ls. if d = CHR '','' \<and> ls = [''img.tif,Sample1'' @ [CHR 0x0A]]
                then [[''img.tif'', ''Sample1'']] else []),
      shlex_split = (\<lambda>s. if s = ''foo img.tif'' then Some [''foo'', ''img.tif''] else None),
      openable = (\<lambda>wd p. p \<noteq> ''/w/err.log''),
      popen = (\<lambda>xargs cmd n. Some (if n = 1 then 3 else 0)),
      argv0 = ''omero''\<rparr>"

lemma strip_example: "strip (''  a.tif '' @ [CHR 0x0A]) = ''a.tif''"
  by (simp add: strip_def lstrip_def rstrip_def is_space_def)

lemma rstrip_example: "rstrip (''  a.tif '' @ [CHR 0x0A]) = ''  a.tif''"
  by (simp add: rstrip_def is_space_def)

text \<open>
  C6, as stated, at a line with leading blanks: without columns the row holds the line
  stripped on both sides, which is not the line trimmed on the right.
\<close>

theorem parse_text_strips_both_sides:
  "parse_text example_env ''/w'' (PStr ''files.txt'') False =
     [Inr [PStr ''a.tif''], Inr [PStr ''b.tif''], Inr [PStr ''c.tif'']] \<and>
   rstrip (''  a.tif '' @ [CHR 0x0A]) = ''  a.tif'' \<and>
   hd (parse_text example_env ''/w'' (PStr ''files.txt'') False) \<noteq>
     Inr [PStr (rstrip (''  a.tif '' @ [CHR 0x0A]))]"
proof -
  have 1: "parse_text example_env ''/w'' (PStr ''files.txt'') False =
             [Inr [PStr ''a.tif''], Inr [PStr ''b.tif''], Inr [PStr ''c.tif'']]"
    by (simp add: parse_text_def open_lines_def example_env_def strip_def lstrip_def
          rstrip_def is_space_def)
  show ?thesis
    unfolding 1 rstrip_example by simp
qed

text \<open>
  C6, amended. The parser is chosen from the columns and the suffix of the path alone:
  \<open>parse_text\<close> when no columns are declared; with columns, \<open>parse_tsv\<close> for \<open>.tsv\<close>,
  \<open>parse_csv\<close> for \<open>.csv\<close> and \<open>parse_shlex\<close> for any other name. Without columns every
  line, stripped of the white space on both sides, is a row of one element, the stripped
  line. The \<open>.tsv\<close> rows are those of the CSV reader with a tab as delimiter and the
  \<open>.csv\<close> rows those with a comma. (Nothing is said here of the shape of the rows of
  \<open>parse_shlex\<close>.)
\<close>

theorem select_function_by_columns_and_suffix:
  "(\<not> truthy cols \<longrightarrow> select_function cols path = Inr Parse_text) \<and>
   (truthy cols \<longrightarrow>
      select_function cols (PStr p) =
        Inr (if endswith p ''.tsv'' then Parse_tsv
             else if endswith p ''.csv'' then Parse_csv else Parse_shlex)) \<and>
   (read_lines e wd p = Some ls \<longrightarrow>
      run_parser Parse_text e wd (PStr p) = map (\<lambda>line. Inr [PStr (strip line)]) ls \<and>
      run_parser Parse_tsv e wd (PStr p) =
        map (\<lambda>r. Inr (map PStr r)) (csv_reader e (CHR 0x09) ls) \<and>
      run_parser Parse_csv e wd (PStr p) =
        map (\<lambda>r. Inr (map PStr r)) (csv_reader e (CHR '','') ls))"
  by (simp add: select_function_def parse_text_def parse_tsv_def parse_csv_def open_lines_def)

theorem select_function_by_columns_and_suffix_witness:
  "select_function PNone (PStr ''rows.csv'') = Inr Parse_text \<and>
   select_function (PList [PStr ''path'', PStr ''name'']) (PStr ''rows.csv'') = Inr Parse_csv \<and>
   select_function (PList [PStr ''path'', PStr ''name'']) (PStr ''rows.tsv'') = Inr Parse_tsv \<and>
   select_function (PList [PStr ''path'', PStr ''name'']) (PStr ''rows.txt'') = Inr Parse_shlex \<and>
   run_parser Parse_csv example_env ''/w'' (PStr ''rows.csv'') =
     [Inr [PStr ''img.tif'', PStr ''Sample1'']] \<and>
   run_parser Parse_text example_env ''/w'' (PStr ''files.txt'') =
     [Inr [PStr ''a.tif''], Inr [PStr ''b.tif''], Inr [PStr ''c.tif'']]"
proof -
  let ?cols = "PList [PStr ''path'', PStr ''name'']"
  have t: "truthy ?cols" "\<not> truthy PNone"
    by simp_all
  have r1: "read_lines example_env ''/w'' ''rows.csv'' = Some [''img.tif,Sample1'' @ [CHR 0x0A]]"
    by (simp add: example_env_def)
  have r2: "read_lines example_env ''/w'' ''files.txt'' =
              Some [''  a.tif '' @ [CHR 0x0A], ''b.tif'' @ [CHR 0x0A], ''c.tif'']"
    by (simp add: example_env_def)
  have c: "csv_reader example_env (CHR '','') [''img.tif,Sample1'' @ [CHR 0x0A]] =
             [[''img.tif'', ''Sample1'']]"
    by (simp add: example_env_def)
  have s: "strip (''b.tif'' @ [CHR 0x0A]) = ''b.tif''" "strip ''c.tif'' = ''c.tif''"
    by (simp_all add: strip_def lstrip_def rstrip_def is_space_def)
  have e: "endswith ''rows.csv'' ''.csv''" "\<not> endswith ''rows.csv'' ''.tsv''"
          "endswith ''rows.tsv'' ''.tsv''"
          "\<not> endswith ''rows.txt'' ''.tsv''" "\<not> endswith ''rows.txt'' ''.csv''"
    by (simp_all add: endswith_def)
  note th = select_function_by_columns_and_suffix
  from th [of PNone "PStr ''rows.csv''"] t
  have 1: "select_function PNone (PStr ''rows.csv'') = Inr Parse_text" by blast
  from th [of ?cols _ "''rows.csv''" example_env "''/w''" "[''img.tif,Sample1'' @ [CHR 0x0A]]"] t r1 e
  have 2: "select_function ?cols (PStr ''rows.csv'') = Inr Parse_csv"
    and 5: "run_parser Parse_csv example_env ''/w'' (PStr ''rows.csv'') =
              map (\<lambda>r. Inr (map PStr r))
                (csv_reader example_env (CHR '','') [''img.tif,Sample1'' @ [CHR 0x0A]])"
    by simp_all
  from th [of ?cols _ "''rows.tsv''"] t e
  have 3: "select_function ?cols (PStr ''rows.tsv'') = Inr Parse_tsv" by simp
  from th [of ?cols _ "''rows.txt''"] t e
  have 4: "select_function ?cols (PStr ''rows.txt'') = Inr Parse_shlex" by simp
  from th [of _ _ "''files.txt''" example_env "''/w''"
              "[''  a.tif '' @ [CHR 0x0A], ''b.tif'' @ [CHR 0x0A], ''c.tif'']"] r2
  have 6: "run_parser Parse_text example_env ''/w'' (PStr ''files.txt'') =
             map (\<lambda>line. Inr [PStr (strip line)])
               [''  a.tif '' @ [CHR 0x0A], ''b.tif'' @ [CHR 0x0A], ''c.tif'']"
    by blast
  have a5: "run_parser Parse_csv example_env ''/w'' (PStr ''rows.csv'') =
              [Inr [PStr ''img.tif'', PStr ''Sample1'']]"
    unfolding 5 c by simp
  have a6: "run_parser Parse_text example_env ''/w'' (PStr ''files.txt'') =
              [Inr [PStr ''a.tif''], Inr [PStr ''b.tif''], Inr [PStr ''c.tif'']]"
    unfolding 6 using strip_example s by simp
  from 1 2 3 4 a5 a6 show ?thesis by blast
qed

text \<open>The rows of \<open>parse_shlex\<close>: each holds one element, the list of the tokens of the
  line, where the rows of \<open>parse_csv\<close> hold the tokens themselves.\<close>

lemma parse_shlex_row_shape:
  "parse_shlex example_env ''/w'' (PStr ''rows.txt'') =
     [Inr [PList [PStr ''foo'', PStr ''img.tif'']]]"
  by (simp add: parse_shlex_def parse_text_def open_lines_def example_env_def strip_def
        lstrip_def rstrip_def is_space_def)

section \<open>The state of a run\<close>

text \<open>
  What a run leaves behind: the status \<open>ctx.rv\<close>, the lines given to \<open>ctx.out\<close> and
  \<open>ctx.err\<close>, the invocations of the external process with their exit status, the
  files a dry run writes, the working directory of the process, and the file objects
  that are open (identifier, path and mode).
\<close>

datatype event =
    Out string
  | Err string
  | Invoked "string list" "pyval list" int
  | Wrote string string

record world =
  rv :: int
  events :: "event list"
  cwd :: string
  handles :: "(nat \<times> string \<times> string) list"
  next_handle :: nat

fun status_of :: "event \<Rightarrow> int list" where
  "status_of (Invoked xargs cmd status) = [status]"
| "status_of ev = []"

definition statuses :: "event list \<Rightarrow> int list" where
  "statuses evs = concat (map status_of evs)"

definition emit :: "event \<Rightarrow> world \<Rightarrow> world" where
  "emit ev w = w\<lparr>events := events w @ [ev]\<rparr>"

definition START_CLASS :: string where
  "START_CLASS = ''ome.formats.importer.cli.CommandLineImporter''"

text \<open>The path \<open>open_log\<close> builds before \<open>os.path.abspath\<close>.\<close>

definition log_path :: "pyval \<Rightarrow> pyval \<Rightarrow> error + string" where
  "log_path file prefix =
     (case file of
        PStr f \<Rightarrow>
          (if truthy prefix then
             (case prefix of PStr p \<Rightarrow> Inr (p @ ''/'' @ f) | _ \<Rightarrow> Inl TypeError)
           else Inr f)
      | _ \<Rightarrow> Inl TypeError)"

definition open_log ::
  "env \<Rightarrow> pyval \<Rightarrow> pyval \<Rightarrow> string \<Rightarrow> world \<Rightarrow> (error + nat option) \<times> world" where
  "open_log e file prefix mode w =
     (if \<not> truthy file then (Inr None, w)
      else (case log_path file prefix of
              Inl err \<Rightarrow> (Inl err, w)
            | Inr f \<Rightarrow>
                (let file' = abspath e (cwd w) f in
                 if openable e (cwd w) file' then
                   (Inr (Some (next_handle w)),
                    w\<lparr>handles := handles w @ [(next_handle w, file', mode)],
                      next_handle := Suc (next_handle w)\<rparr>)
                 else (Inl (IOError file'), w))))"

definition open_files ::
  "env \<Rightarrow> command_arguments \<Rightarrow> string \<Rightarrow> world \<Rightarrow>
     (error + nat option \<times> nat option) \<times> world" where
  "open_files e s mode w =
     (case arg_lookup (args s) ''file'' of
        Inl err \<Rightarrow> (Inl err, w)
      | Inr file \<Rightarrow>
          (case arg_lookup (args s) ''logprefix'' of
             Inl err \<Rightarrow> (Inl err, w)
           | Inr logprefix \<Rightarrow>
               (case open_log e file logprefix mode w of
                  (Inl err, w1) \<Rightarrow> (Inl err, w1)
                | (Inr out, w1) \<Rightarrow>
                    (case arg_lookup (args s) ''errs'' of
                       Inl err \<Rightarrow> (Inl err, w1)
                     | Inr errs \<Rightarrow>
                         (case open_log e errs logprefix mode w1 of
                            (Inl err, w2) \<Rightarrow> (Inl err, w2)
                          | (Inr errh, w2) \<Rightarrow> (Inr (out, errh), w2))))))"

text \<open>\<open>if out: out.close()\<close>\<close>

definition close_handle :: "nat option \<Rightarrow> world \<Rightarrow> world" where
  "close_handle h w =
     (case h of None \<Rightarrow> w | Some i \<Rightarrow> w\<lparr>handles := filter (\<lambda>x. fst x \<noteq> i) (handles w)\<rparr>)"

text \<open>
  \<open>do_import\<close>. The variables \<open>out\<close> and \<open>err\<close> are bound only when \<open>open_files\<close>
  returns; the \<open>finally\<close> block closes what they hold.
\<close>

definition do_import ::
  "env \<Rightarrow> string list \<Rightarrow> command_arguments \<Rightarrow> string list \<Rightarrow> string \<Rightarrow> world \<Rightarrow>
     (error + unit) \<times> world" where
  "do_import e command s xargs mode w =
     (case java_args s of
        Inl err \<Rightarrow> (Inl err, w)
      | Inr ja \<Rightarrow>
          (case open_files e s mode w of
             (Inl err, w1) \<Rightarrow> (Inl err, w1)
           | (Inr (out, errh), w1) \<Rightarrow>
               (case popen e xargs (map PStr command @ ja) (length (statuses (events w1))) of
                  None \<Rightarrow> (Inl OSError, close_handle errh (close_handle out w1))
                | Some status \<Rightarrow>
                    (Inr (),
                     close_handle errh (close_handle out
                       (emit (Invoked xargs (map PStr command @ ja) status)
                          (w1\<lparr>rv := status\<rparr>)))))))"

section \<open>Dry runs\<close>

text \<open>
  \<open>template % incr\<close> for the conversions \<open>%s\<close>, \<open>%d\<close>, \<open>%i\<close> and \<open>%%\<close>. A second
  conversion, or none, is a TypeError, a lone \<open>%\<close> at the end a ValueError. Flags,
  widths and the other conversions are not determined here.
\<close>

fun py_format_from :: "string \<Rightarrow> string \<Rightarrow> bool \<Rightarrow> error + string" where
  "py_format_from [] a used = (if used then Inr [] else Inl TypeError)"
| "py_format_from [c] a used =
     (if c = CHR ''%'' then Inl ValueError
      else if used then Inr [c] else Inl TypeError)"
| "py_format_from (c # d # rest) a used =
     (if c \<noteq> CHR ''%'' then
        bind_err (py_format_from (d # rest) a used) (\<lambda>r. Inr (c # r))
      else if d = CHR ''%'' then
        bind_err (py_format_from rest a used) (\<lambda>r. Inr (CHR ''%'' # r))
      else if d \<in> set ''sdi'' then
        (if used then Inl TypeError
         else bind_err (py_format_from rest a True) (\<lambda>r. Inr (a @ r)))
      else Inl Undetermined)"

definition py_format :: "string \<Rightarrow> nat \<Rightarrow> error + string" where
  "py_format template n = py_format_from template (show_nat n) False"

text \<open>\<open>'"%s"' % x\<close>\<close>

definition quote_arg :: "pyval \<Rightarrow> error + string" where
  "quote_arg x = (case py_str x of None \<Rightarrow> Inl Undetermined | Some t \<Rightarrow> Inr (''\"'' @ t @ ''\"''))"

fun quote_args :: "pyval list \<Rightarrow> error + string list" where
  "quote_args [] = Inr []"
| "quote_args (x # xs) =
     bind_err (quote_arg x) (\<lambda>q. bind_err (quote_args xs) (\<lambda>qs. Inr (q # qs)))"

text \<open>\<open>" ".join(rv)\<close>\<close>

fun join_spaces :: "string list \<Rightarrow> string" where
  "join_spaces [] = []"
| "join_spaces [x] = x"
| "join_spaces (x # y # ys) = x @ '' '' @ join_spaces (y # ys)"

definition dry_run_text :: "command_arguments \<Rightarrow> error + string" where
  "dry_run_text s =
     bind_err (added_args s) (\<lambda>aa. bind_err (quote_args aa) (\<lambda>qs. Inr (join_spaces qs)))"

text \<open>The branch \<open>if command_args.dry_run:\<close> of the loop of \<open>bulk_import\<close>.\<close>

definition dry_run_row ::
  "env \<Rightarrow> command_arguments \<Rightarrow> pyval \<Rightarrow> nat \<Rightarrow> world \<Rightarrow> (error + unit) \<times> world" where
  "dry_run_row e s dry incr w =
     (case dry_run_text s of
        Inl err \<Rightarrow> (Inl err, w)
      | Inr text \<Rightarrow>
          (case dry of
             PStr d \<Rightarrow>
               (if lower d = ''true'' then (Inr (), emit (Out text) w)
                else (case py_format d incr of
                        Inl err \<Rightarrow> (Inl err, w)
                      | Inr name \<Rightarrow>
                          if openable e (cwd w) name then
                            (Inr (),
                             emit (Wrote name (argv0 e @ '' import '' @ text @ [CHR 0x0A])) w)
                          else (Inl (IOError name), w)))
           | _ \<Rightarrow> (Inl (AttributeError ''lower''), w)))"

section \<open>The loop of bulk_import\<close>

text \<open>The end of the loop body: the test of \<open>ctx.rv\<close>, the counters, and the two lines
  that store the total and report the failures.\<close>

definition after_row :: "bool \<Rightarrow> nat \<Rightarrow> int \<Rightarrow> world \<Rightarrow> (error + nat \<times> int) \<times> world" where
  "after_row cont failed tot w =
     (if rv w \<noteq> 0 then
        (if cont then
           (Inr (failed + 1, tot + rv w),
            (let w1 = (emit (Err (''Import failed with error code: '' @ show_int (rv w) @
                                   ''. Continuing'')) w)\<lparr>rv := tot + rv w\<rparr>
             in emit (Err (show_hex (failed + 1) @ '' failed imports'')) w1))
         else (Inl (Die 106 ''Import failed. Use -c to continue after errors''), w))
      else
        (Inr (failed, tot),
         (let w1 = w\<lparr>rv := tot\<rparr>
          in if failed \<noteq> 0 then emit (Err (show_hex failed @ '' failed imports'')) w1 else w1)))"

text \<open>The loop body for one yielded row: \<open>incr\<close>, dry run or import, then \<open>after_row\<close>.
  The counters are \<open>incr\<close>, \<open>failed\<close> and \<open>total\<close>.\<close>

definition bulk_row ::
  "env \<Rightarrow> string list \<Rightarrow> string list \<Rightarrow> bool \<Rightarrow> command_arguments \<Rightarrow> nat \<times> nat \<times> int \<Rightarrow>
     world \<Rightarrow> (error + nat \<times> nat \<times> int) \<times> world" where
  "bulk_row e command xargs cont s st w =
     (case st of (incr, failed, tot) \<Rightarrow>
        (case getattr s ''dry_run'' of
           None \<Rightarrow> (Inl (AttributeError ''dry_run''), w)
         | Some dry \<Rightarrow>
             (case (if truthy dry then dry_run_row e s dry (incr + 1) w
                    else do_import e command s xargs (if incr + 1 = 1 then ''w'' else ''a'') w) of
                (Inl err, w1) \<Rightarrow> (Inl err, w1)
              | (Inr u, w1) \<Rightarrow>
                  (case after_row cont failed tot w1 of
                     (Inl err, w2) \<Rightarrow> (Inl err, w2)
                   | (Inr ft, w2) \<Rightarrow> (Inr (incr + 1, ft), w2)))))"

text \<open>What \<open>parse_bulk\<close> does with one row before it yields.\<close>

fun apply_columns ::
  "pyval list \<Rightarrow> nat \<Rightarrow> pyval list \<Rightarrow> command_arguments \<Rightarrow> error + command_arguments" where
  "apply_columns [] idx parts s = Inr s"
| "apply_columns (col # cols) idx parts s =
     (if idx < length parts then
        (if col = PStr ''path'' then
           bind_err (set_path (PList [parts ! idx]) s) (apply_columns cols (Suc idx) parts)
         else (case col of
                 PStr key \<Rightarrow> bind_err (add key (parts ! idx) s) (apply_columns cols (Suc idx) parts)
               | PList xs \<Rightarrow> Inl TypeError
               | PDict d \<Rightarrow> Inl TypeError
               | _ \<Rightarrow> (case py_str col of
                         None \<Rightarrow> Inl Undetermined
                       | Some t \<Rightarrow> Inl (Die 200 (''Unknown argument: '' @ t)))))
      else Inl IndexError)"

definition apply_row :: "pyval \<Rightarrow> pyval list \<Rightarrow> command_arguments \<Rightarrow> error + command_arguments" where
  "apply_row cols parts s =
     (if \<not> truthy cols then set_path (PList parts) s
      else (case py_iter cols of
              None \<Rightarrow> Inl TypeError
            | Some cs \<Rightarrow> apply_columns cs 0 parts s))"

text \<open>The loop \<open>for cont in self.parse_bulk(bulk, command_args)\<close> over the rows that the
  parser yields, one after the other.\<close>

fun bulk_rows ::
  "env \<Rightarrow> string list \<Rightarrow> string list \<Rightarrow> bool \<Rightarrow> pyval \<Rightarrow> rows \<Rightarrow> command_arguments \<Rightarrow>
     nat \<times> nat \<times> int \<Rightarrow> world \<Rightarrow> (error + command_arguments \<times> nat \<times> nat \<times> int) \<times> world" where
  "bulk_rows e command xargs cont cols [] s st w = (Inr (s, st), w)"
| "bulk_rows e command xargs cont cols (r # rs) s st w =
     (case r of
        Inl err \<Rightarrow> (Inl err, w)
      | Inr parts \<Rightarrow>
          (case apply_row cols parts s of
             Inl err \<Rightarrow> (Inl err, w)
           | Inr s1 \<Rightarrow>
               (case bulk_row e command xargs cont s1 st w of
                  (Inl err, w1) \<Rightarrow> (Inl err, w1)
                | (Inr st1, w1) \<Rightarrow> bulk_rows e command xargs cont cols rs s1 st1 w1)))"

section \<open>parse_bulk before the first row\<close>

text \<open>The keys with special handling, in the order of the source. Each step gives the
  mapping without the key it popped.\<close>

definition setup_dry_run :: "pydict \<Rightarrow> command_arguments \<Rightarrow> error + pydict \<times> command_arguments" where
  "setup_dry_run bulk s =
     (let s0 = setattr ''dry_run'' (PBool False) s in
      case map_of bulk ''dry_run'' of
        None \<Rightarrow> Inr (bulk, s0)
      | Some v \<Rightarrow>
          (case py_str v of
             None \<Rightarrow> Inl Undetermined
           | Some dry_run \<Rightarrow>
               Inr (AList.delete ''dry_run'' bulk,
                    if lower dry_run \<noteq> ''false'' then setattr ''dry_run'' (PStr dry_run) s0
                    else s0)))"

definition setup_continue ::
  "pydict \<Rightarrow> command_arguments \<Rightarrow> error + bool \<times> pydict \<times> command_arguments" where
  "setup_continue bulk s =
     (case map_of bulk ''continue'' of
        None \<Rightarrow> Inr (False, bulk, s)
      | Some c \<Rightarrow>
          (if truthy c then
             bind_err (add ''c'' NO_ARG s) (\<lambda>s1. Inr (True, AList.delete ''continue'' bulk, s1))
           else Inr (True, AList.delete ''continue'' bulk, s)))"

definition setup_skip :: "pydict \<Rightarrow> command_arguments \<Rightarrow> error + pydict \<times> command_arguments" where
  "setup_skip bulk s =
     (case map_of bulk ''skip'' of
        None \<Rightarrow> Inr (bulk, s)
      | Some skip \<Rightarrow>
          bind_err (set_skip_values skip s) (\<lambda>s1. Inr (AList.delete ''skip'' bulk, s1)))"

text \<open>The loop \<open>for key in bulk: command_args.add(key, bulk[key])\<close>.\<close>

fun add_all :: "pydict \<Rightarrow> command_arguments \<Rightarrow> error + command_arguments" where
  "add_all [] s = Inr s"
| "add_all (kv # kvs) s = bind_err (add (fst kv) (snd kv) s) (add_all kvs)"

text \<open>The result: \<open>cont\<close>, \<open>cols\<close> (\<open>PNone\<close> when no columns are given), \<open>path\<close> and the
  arguments.\<close>

definition parse_bulk_setup ::
  "pydict \<Rightarrow> command_arguments \<Rightarrow> error + bool \<times> pyval \<times> pyval \<times> command_arguments" where
  "parse_bulk_setup bulk s =
     bind_err (setup_dry_run bulk s) (\<lambda>r1. case r1 of (bulk1, s1) \<Rightarrow>
     bind_err (setup_continue bulk1 s1) (\<lambda>r2. case r2 of (cont, bulk2, s2) \<Rightarrow>
     bind_err (setup_skip bulk2 s2) (\<lambda>r3. case r3 of (bulk3, s3) \<Rightarrow>
       (case map_of bulk3 ''path'' of
          None \<Rightarrow> Inl (Die 107 ''No path specified'')
        | Some path \<Rightarrow>
            (let bulk4 = AList.delete ''path'' bulk3;
                 cols = dict_get bulk4 ''columns'';
                 bulk5 = AList.delete ''include'' (AList.delete ''columns'' bulk4)
             in bind_err (add_all bulk5 s3) (\<lambda>s4. Inr (cont, cols, path, s4)))))))"

text \<open>The body of the \<open>try\<close> of \<open>bulk_import\<close> once the files are merged.\<close>

definition bulk_run ::
  "env \<Rightarrow> string list \<Rightarrow> command_arguments \<Rightarrow> string list \<Rightarrow> pydict \<Rightarrow> world \<Rightarrow>
     (error + command_arguments \<times> nat \<times> nat \<times> int) \<times> world" where
  "bulk_run e command s xargs bulk w =
     (case parse_bulk_setup bulk s of
        Inl err \<Rightarrow> (Inl err, w)
      | Inr (cont, cols, path, s1) \<Rightarrow>
          (case select_function cols path of
             Inl err \<Rightarrow> (Inl err, w)
           | Inr f \<Rightarrow>
               bulk_rows e command xargs cont cols (run_parser f e (cwd w) path) s1 (0, 0, 0) w))"

text \<open>\<open>bulk_import\<close>: \<open>None\<close> when the walk over the includes does not end. The last line
  is the \<open>finally\<close> block.\<close>

definition bulk_import ::
  "env \<Rightarrow> string list \<Rightarrow> command_arguments \<Rightarrow> string list \<Rightarrow> world \<Rightarrow>
     ((error + command_arguments \<times> nat \<times> nat \<times> int) \<times> world) option" where
  "bulk_import e command s xargs w =
     (if \<not> yaml_available e then Some (Inl (Die 105 ''ERROR: PyYAML is not installed''), w)
      else
        (let old_pwd = cwd w in
         case getattr s ''bulk'' of
           None \<Rightarrow> Some (Inl (AttributeError ''bulk''), w\<lparr>cwd := old_pwd\<rparr>)
         | Some bulkfile \<Rightarrow>
             (case load_contents e bulkfile [] (cwd w) of
                None \<Rightarrow> None
              | Some (Inl err, wd) \<Rightarrow> Some (Inl err, w\<lparr>cwd := old_pwd\<rparr>)
              | Some (Inr cs, wd) \<Rightarrow>
                  (case merge_contents cs wd of
                     (bulk, wd1) \<Rightarrow>
                       (case bulk_run e command s xargs bulk (w\<lparr>cwd := wd1\<rparr>) of
                          (res, w1) \<Rightarrow> Some (res, w1\<lparr>cwd := old_pwd\<rparr>))))))"

section \<open>What one import leaves behind\<close>

fun is_die :: "error \<Rightarrow> bool" where
  "is_die (Die code msg) = True"
| "is_die err = False"

text \<open>The error of \<open>ctx.die(106, ...)\<close> in the loop of \<open>bulk_import\<close>.\<close>

definition import_failed :: error where
  "import_failed = Die 106 ''Import failed. Use -c to continue after errors''"

lemma is_die_import_failed: "is_die import_failed"
  by (simp add: import_failed_def)

lemma statuses_append: "statuses (xs @ ys) = statuses xs @ statuses ys"
  by (simp add: statuses_def)

lemma statuses_simps:
  "statuses [] = []"
  "statuses (Invoked xargs cmd st # evs) = st # statuses evs"
  "statuses (Out t # evs) = statuses evs"
  "statuses (Err t # evs) = statuses evs"
  "statuses (Wrote n t # evs) = statuses evs"
  by (simp_all add: statuses_def)

lemma emit_fields:
  "events (emit ev w) = events w @ [ev]" "rv (emit ev w) = rv w" "cwd (emit ev w) = cwd w"
  "handles (emit ev w) = handles w" "next_handle (emit ev w) = next_handle w"
  by (simp_all add: emit_def)

lemma close_handle_fields:
  "events (close_handle h w) = events w" "rv (close_handle h w) = rv w"
  "cwd (close_handle h w) = cwd w" "next_handle (close_handle h w) = next_handle w"
  by (simp_all add: close_handle_def split: option.splits)

lemma open_log_frame:
  "open_log e file prefix mode w = (r, w') \<Longrightarrow>
   events w' = events w \<and> rv w' = rv w \<and> cwd w' = cwd w \<and>
   (\<forall>err. r = Inl err \<longrightarrow> \<not> is_die err)"
  by (auto simp: open_log_def log_path_def Let_def
           split: if_splits sum.splits pyval.splits)

lemma open_files_frame:
  "open_files e s mode w = (r, w') \<Longrightarrow>
   events w' = events w \<and> rv w' = rv w \<and> cwd w' = cwd w \<and>
   (\<forall>err. r = Inl err \<longrightarrow> \<not> is_die err)"
  unfolding open_files_def arg_lookup_def
  by (auto split: sum.splits option.splits prod.splits dest!: open_log_frame)

lemma java_args_not_die: "java_args s = Inl err \<Longrightarrow> \<not> is_die err"
  by (auto simp: java_args_def Let_def split: option.splits if_splits)

text \<open>An import that returns has made one invocation and stored its status; one that
  raises has made none, and it never dies.\<close>

lemma do_import_cases:
  assumes "do_import e command s xargs mode w = (res, w')"
  shows "cwd w' = cwd w"
    and "\<And>err. res = Inl err \<Longrightarrow> \<not> is_die err \<and> events w' = events w \<and> rv w' = rv w"
    and "\<And>u. res = Inr u \<Longrightarrow> \<exists>cmd. events w' = events w @ [Invoked xargs cmd (rv w')]"
proof -
  have "cwd w' = cwd w \<and>
        (\<forall>err. res = Inl err \<longrightarrow> \<not> is_die err \<and> events w' = events w \<and> rv w' = rv w) \<and>
        (\<forall>u. res = Inr u \<longrightarrow> (\<exists>cmd. events w' = events w @ [Invoked xargs cmd (rv w')]))"
  proof (cases "java_args s")
    case (Inl err)
    with assms show ?thesis
      by (auto simp: do_import_def dest: java_args_not_die)
  next
    case (Inr ja)
    obtain r w1 where of: "open_files e s mode w = (r, w1)"
      by (cases "open_files e s mode w")
    from open_files_frame [OF of]
    have fr: "events w1 = events w" "rv w1 = rv w" "cwd w1 = cwd w"
      "\<And>err. r = Inl err \<Longrightarrow> \<not> is_die err"
      by blast+
    show ?thesis
    proof (cases r)
      case (Inl err)
      with assms Inr of fr show ?thesis
        by (auto simp: do_import_def)
    next
      case r: (Inr hs)
      obtain out errh where hs: "hs = (out, errh)" by (cases hs)
      show ?thesis
      proof (cases "popen e xargs (map PStr command @ ja) (length (statuses (events w1)))")
        case None
        with assms Inr of r hs fr show ?thesis
          by (auto simp: do_import_def close_handle_fields)
      next
        case (Some status)
        with assms Inr of r hs fr show ?thesis
          by (auto simp: do_import_def close_handle_fields emit_fields)
      qed
    qed
  qed
  then show "cwd w' = cwd w"
    and "\<And>err. res = Inl err \<Longrightarrow> \<not> is_die err \<and> events w' = events w \<and> rv w' = rv w"
    and "\<And>u. res = Inr u \<Longrightarrow> \<exists>cmd. events w' = events w @ [Invoked xargs cmd (rv w')]"
    by blast+
qed

lemma quote_args_not_die: "quote_args xs = Inl err \<Longrightarrow> \<not> is_die err"
  by (induction xs arbitrary: err)
     (auto simp: bind_err_def quote_arg_def split: sum.splits option.splits)

lemma dry_run_text_not_die: "dry_run_text s = Inl err \<Longrightarrow> \<not> is_die err"
  by (auto simp: dry_run_text_def bind_err_def added_args_def
           split: sum.splits option.splits dest: quote_args_not_die)

lemma py_format_from_not_die: "py_format_from t a used = Inl err \<Longrightarrow> \<not> is_die err"
  by (induction t a used arbitrary: err rule: py_format_from.induct)
     (auto simp: bind_err_def split: sum.splits if_splits)

lemma py_format_not_die: "py_format t n = Inl err \<Longrightarrow> \<not> is_die err"
  by (simp add: py_format_def py_format_from_not_die)

lemma dry_run_row_cases:
  assumes "dry_run_row e s dry incr w = (res, w')"
  shows "cwd w' = cwd w" "rv w' = rv w" "handles w' = handles w"
    and "statuses (events w') = statuses (events w)"
    and "\<And>err. res = Inl err \<Longrightarrow> err \<noteq> import_failed \<and> events w' = events w"
proof -
  have "cwd w' = cwd w \<and> rv w' = rv w \<and> handles w' = handles w \<and>
        statuses (events w') = statuses (events w) \<and>
        (\<forall>err. res = Inl err \<longrightarrow> err \<noteq> import_failed \<and> events w' = events w)"
  proof (cases "dry_run_text s")
    case (Inl err)
    then have "\<not> is_die err"
      by (rule dry_run_text_not_die)
    with Inl assms show ?thesis
      using is_die_import_failed by (auto simp: dry_run_row_def)
  next
    case (Inr tx)
    with assms show ?thesis
      by (auto simp: dry_run_row_def emit_fields statuses_append statuses_simps
                     import_failed_def
               split: pyval.splits if_splits sum.splits dest: py_format_not_die)
  qed
  then show "cwd w' = cwd w" "rv w' = rv w" "handles w' = handles w"
    and "statuses (events w') = statuses (events w)"
    and "\<And>err. res = Inl err \<Longrightarrow> err \<noteq> import_failed \<and> events w' = events w"
    by blast+
qed

section \<open>Rows and the dry-run attribute\<close>

lemma dry_run_not_py_key: "''dry_run'' \<notin> set py_keys"
  by (simp add: py_keys_def)

lemma add_cases:
  "add k v s = Inl err \<Longrightarrow> err = Die 200 (''Unknown argument: '' @ k)"
  "add k v s = Inr s' \<Longrightarrow> getattr s' ''dry_run'' = getattr s ''dry_run''"
  using dry_run_not_py_key
  by (auto simp: add_def Let_def getattr_place_arg getattr_setattr split: if_splits)

lemma set_path_cases:
  "set_path p s = Inl err \<Longrightarrow> err = Die 202 ''Path is not a list''"
  "set_path p s = Inr s' \<Longrightarrow> getattr s' ''dry_run'' = getattr s ''dry_run''"
  by (auto simp: set_path_def getattr_setattr split: if_splits)

lemma apply_columns_cases:
  "(\<forall>err. apply_columns cs idx parts s = Inl err \<longrightarrow> err \<noteq> import_failed) \<and>
   (\<forall>s'. apply_columns cs idx parts s = Inr s' \<longrightarrow>
      getattr s' ''dry_run'' = getattr s ''dry_run'')"
proof (induction cs idx parts s rule: apply_columns.induct)
  case (1 idx parts s)
  show ?case by simp
next
  case (2 col cols idx parts s)
  show ?case
  proof (cases "idx < length parts")
    case False
    then show ?thesis by (simp add: import_failed_def)
  next
    case True
    show ?thesis
    proof (cases "col = PStr ''path''")
      case p: True
      show ?thesis
      proof (cases "set_path (PList [parts ! idx]) s")
        case (Inl err)
        with True p set_path_cases(1) [OF Inl] show ?thesis
          by (simp add: bind_err_def import_failed_def)
      next
        case (Inr s1)
        with True p "2.IH"(1) [OF True p, of s1] set_path_cases(2) [OF Inr] show ?thesis
          by (simp add: bind_err_def)
      qed
    next
      case np: False
      show ?thesis
      proof (cases col)
        case (PStr key)
        show ?thesis
        proof (cases "add key (parts ! idx) s")
          case (Inl err)
          with True np PStr add_cases(1) [OF Inl] show ?thesis
            by (simp add: bind_err_def import_failed_def)
        next
          case (Inr s1)
          with True np PStr "2.IH"(2) [OF True np PStr, of s1] add_cases(2) [OF Inr]
          show ?thesis
            by (simp add: bind_err_def)
        qed
      qed (use True np in \<open>auto simp: import_failed_def split: option.splits\<close>)
    qed
  qed
qed

lemma apply_row_cases:
  "apply_row cols parts s = Inl err \<Longrightarrow> err \<noteq> import_failed"
  "apply_row cols parts s = Inr s' \<Longrightarrow> getattr s' ''dry_run'' = getattr s ''dry_run''"
  using apply_columns_cases [of _ 0 parts s] set_path_cases [of "PList parts" s]
  by (auto simp: apply_row_def import_failed_def split: if_splits option.splits)

section \<open>One row of the loop\<close>

definition continuing_msg :: "int \<Rightarrow> event" where
  "continuing_msg st = Err (''Import failed with error code: '' @ show_int st @ ''. Continuing'')"

definition failed_msg :: "nat \<Rightarrow> event" where
  "failed_msg n = Err (show_hex n @ '' failed imports'')"


lemma after_row_continue:
  "after_row True failed tot w = (res, w') \<Longrightarrow>
   res = Inr (if rv w \<noteq> 0 then failed + 1 else failed, tot + rv w) \<and>
   rv w' = tot + rv w \<and>
   events w' = events w @
     (if rv w \<noteq> 0 then [continuing_msg (rv w)] else []) @
     (if (if rv w \<noteq> 0 then failed + 1 else failed) \<noteq> 0
      then [failed_msg (if rv w \<noteq> 0 then failed + 1 else failed)] else [])"
  by (auto simp: after_row_def Let_def emit_def continuing_msg_def failed_msg_def
           split: if_splits)




section \<open>The loop over the rows\<close>




text \<open>The parsers raise no \<open>die\<close>.\<close>

lemma run_parser_no_die: "Inl import_failed \<notin> set (run_parser f e wd path)"
  by (cases f)
     (auto simp: parse_text_def parse_shlex_def parse_tsv_def parse_csv_def open_lines_def
                 import_failed_def
           split: sum.splits pyval.splits option.splits if_splits)

section \<open>The special keys of the bulk file\<close>

text \<open>The value \<open>parse_bulk\<close> leaves in the attribute \<open>dry_run\<close>: the text of the declared
  value unless it reads \<open>false\<close>, and \<open>False\<close> otherwise.\<close>

definition declared_dry_run :: "pydict \<Rightarrow> pyval" where
  "declared_dry_run bulk =
     (case map_of bulk ''dry_run'' of
        None \<Rightarrow> PBool False
      | Some v \<Rightarrow>
          (case py_str v of
             None \<Rightarrow> PBool False
           | Some d \<Rightarrow> if lower d \<noteq> ''false'' then PStr d else PBool False))"

lemma setup_dry_run_result:
  "setup_dry_run bulk s = Inr (bulk1, s1) \<Longrightarrow>
   getattr s1 ''dry_run'' = Some (declared_dry_run bulk) \<and>
   bulk1 = AList.delete ''dry_run'' bulk"
proof (cases "map_of bulk ''dry_run''")
  case None
  then have "''dry_run'' \<notin> fst ` set bulk"
    by (simp add: map_of_eq_None_iff)
  then have "AList.delete ''dry_run'' bulk = bulk"
    by (rule delete_id)
  moreover assume "setup_dry_run bulk s = Inr (bulk1, s1)"
  ultimately show ?thesis
    using None by (auto simp: setup_dry_run_def declared_dry_run_def Let_def getattr_setattr)
next
  case (Some v)
  moreover assume "setup_dry_run bulk s = Inr (bulk1, s1)"
  ultimately show ?thesis
    by (auto simp: setup_dry_run_def declared_dry_run_def Let_def getattr_setattr
             split: option.splits if_splits)
qed

lemma setup_continue_result:
  "setup_continue bulk s = Inr (cont, bulk2, s2) \<Longrightarrow>
   cont = (map_of bulk ''continue'' \<noteq> None) \<and>
   getattr s2 ''dry_run'' = getattr s ''dry_run'' \<and>
   (\<forall>c. map_of bulk ''continue'' = Some c \<longrightarrow>
      (truthy c \<longrightarrow> add ''c'' NO_ARG s = Inr s2) \<and> (\<not> truthy c \<longrightarrow> s2 = s))"
  by (auto simp: setup_continue_def bind_err_def
           split: option.splits if_splits sum.splits dest: add_cases(2))

lemma setup_skip_result:
  "setup_skip bulk s = Inr (bulk3, s3) \<Longrightarrow> getattr s3 ''dry_run'' = getattr s ''dry_run''"
  by (auto simp: setup_skip_def bind_err_def getattr_def
           split: option.splits sum.splits
           dest!: set_skip_values_only_java_initial only_java_initial_fields(2))

lemma add_all_result:
  "add_all kvs s = Inr s' \<Longrightarrow> getattr s' ''dry_run'' = getattr s ''dry_run''"
  by (induction kvs arbitrary: s)
     (auto simp: bind_err_def split: sum.splits dest: add_cases(2))

lemma parse_bulk_setup_result:
  assumes "parse_bulk_setup bulk s = Inr (cont, cols, path, s4)"
  shows "cont = (map_of bulk ''continue'' \<noteq> None)"
    and "getattr s4 ''dry_run'' = Some (declared_dry_run bulk)"
proof -
  from assms obtain bulk1 s1 bulk2 s2 bulk3 s3 bulk5 where
    1: "setup_dry_run bulk s = Inr (bulk1, s1)" and
    2: "setup_continue bulk1 s1 = Inr (cont, bulk2, s2)" and
    3: "setup_skip bulk2 s2 = Inr (bulk3, s3)" and
    4: "add_all bulk5 s3 = Inr s4"
    by (auto simp: parse_bulk_setup_def bind_err_def Let_def
             split: sum.splits option.splits prod.splits)
  from setup_dry_run_result [OF 1] have b1: "bulk1 = AList.delete ''dry_run'' bulk"
    and d1: "getattr s1 ''dry_run'' = Some (declared_dry_run bulk)"
    by simp_all
  have "map_of bulk1 ''continue'' = map_of bulk ''continue''"
    by (simp add: b1)
  with setup_continue_result [OF 2] show "cont = (map_of bulk ''continue'' \<noteq> None)"
    by simp
  from setup_continue_result [OF 2] setup_skip_result [OF 3] add_all_result [OF 4] d1
  show "getattr s4 ''dry_run'' = Some (declared_dry_run bulk)"
    by simp
qed

section \<open>Runs that continue after errors\<close>

lemma skip_flag_error: "skip_flag skip name flag s = Inl err \<Longrightarrow> err = TypeError"
  by (auto simp: skip_flag_def skip_requested_def bind_err_def
           split: option.splits if_splits sum.splits)

lemma set_skip_values_error: "set_skip_values skip s = Inl err \<Longrightarrow> err = TypeError"
  by (auto simp: set_skip_values_def bind_err_def split: sum.splits dest: skip_flag_error)

lemma add_all_error: "add_all kvs s = Inl err \<Longrightarrow> err \<noteq> import_failed"
  by (induction kvs arbitrary: s)
     (auto simp: bind_err_def import_failed_def split: sum.splits dest: add_cases(1))

lemma setup_dry_run_error: "setup_dry_run bulk s = Inl err \<Longrightarrow> err \<noteq> import_failed"
  by (auto simp: setup_dry_run_def Let_def import_failed_def split: option.splits)

lemma setup_continue_error: "setup_continue bulk s = Inl err \<Longrightarrow> err \<noteq> import_failed"
  by (auto simp: setup_continue_def bind_err_def import_failed_def
           split: option.splits if_splits sum.splits dest: add_cases(1))

lemma setup_skip_error: "setup_skip bulk s = Inl err \<Longrightarrow> err \<noteq> import_failed"
  by (auto simp: setup_skip_def bind_err_def import_failed_def
           split: option.splits sum.splits dest: set_skip_values_error)

lemma parse_bulk_setup_error:
  assumes "parse_bulk_setup bulk s = Inl err"
  shows "err \<noteq> import_failed"
proof (cases "setup_dry_run bulk s")
  case (Inl e1)
  with assms setup_dry_run_error [OF Inl] show ?thesis
    by (simp add: parse_bulk_setup_def bind_err_def)
next
  case r1: (Inr x1)
  obtain bulk1 s1 where x1: "x1 = (bulk1, s1)" by (cases x1)
  show ?thesis
  proof (cases "setup_continue bulk1 s1")
    case (Inl e2)
    with assms r1 x1 setup_continue_error [OF Inl] show ?thesis
      by (simp add: parse_bulk_setup_def bind_err_def)
  next
    case r2: (Inr x2)
    obtain cont bulk2 s2 where x2: "x2 = (cont, bulk2, s2)" by (cases x2)
    show ?thesis
    proof (cases "setup_skip bulk2 s2")
      case (Inl e3)
      with assms r1 x1 r2 x2 setup_skip_error [OF Inl] show ?thesis
        by (simp add: parse_bulk_setup_def bind_err_def)
    next
      case r3: (Inr x3)
      obtain bulk3 s3 where x3: "x3 = (bulk3, s3)" by (cases x3)
      from assms r1 x1 r2 x2 r3 x3 show ?thesis
        by (auto simp: parse_bulk_setup_def bind_err_def Let_def import_failed_def
                 split: option.splits sum.splits dest: add_all_error)
    qed
  qed
qed

lemma select_function_error: "select_function cols path = Inl err \<Longrightarrow> err \<noteq> import_failed"
  by (auto simp: select_function_def import_failed_def split: if_splits pyval.splits)

lemma bulk_row_never_fatal:
  assumes "bulk_row e command xargs True s st w = (res, w')"
  shows "res \<noteq> Inl import_failed"
proof (cases "getattr s ''dry_run''")
  case None
  with assms show ?thesis
    by (auto simp: bulk_row_def import_failed_def split: prod.splits)
next
  case (Some dry)
  obtain incr failed tot where st: "st = (incr, failed, tot)"
    by (cases st)
  let ?m = "if truthy dry then dry_run_row e s dry (incr + 1) w
            else do_import e command s xargs (if incr + 1 = 1 then ''w'' else ''a'') w"
  obtain r1 w1 where m: "?m = (r1, w1)"
    by (cases ?m)
  show ?thesis
  proof (cases r1)
    case (Inl err)
    have "err \<noteq> import_failed"
    proof (cases "truthy dry")
      case True
      with m Inl dry_run_row_cases(5) [of e s dry "incr + 1" w r1 w1] show ?thesis
        by simp
    next
      case False
      with m Inl do_import_cases(2) [of e command s xargs _ w r1 w1] is_die_import_failed
      show ?thesis
        by auto
    qed
    moreover have "res = Inl err"
      using assms Some st m Inl by (simp add: bulk_row_def)
    ultimately show ?thesis
      by simp
  next
    case (Inr u)
    obtain r2 w2 where a: "after_row True failed tot w1 = (r2, w2)"
      by (cases "after_row True failed tot w1")
    from after_row_continue [OF a] obtain ft where "r2 = Inr ft"
      by blast
    with assms Some st m Inr a show ?thesis
      by (auto simp: bulk_row_def)
  qed
qed

lemma bulk_rows_never_fatal:
  assumes "bulk_rows e command xargs True cols rs s st w = (res, w')"
    and "Inl import_failed \<notin> set rs"
  shows "res \<noteq> Inl import_failed"
  using assms
proof (induction rs arbitrary: s st w)
  case Nil
  then show ?case by auto
next
  case (Cons r rs)
  show ?case
  proof (cases r)
    case (Inl err)
    with Cons.prems show ?thesis by auto
  next
    case (Inr parts)
    show ?thesis
    proof (cases "apply_row cols parts s")
      case a: (Inl err)
      with Cons.prems(1) Inr apply_row_cases(1) [OF a] show ?thesis by auto
    next
      case a: (Inr s1)
      obtain r1 w1 where b: "bulk_row e command xargs True s1 st w = (r1, w1)"
        by (cases "bulk_row e command xargs True s1 st w")
      show ?thesis
      proof (cases r1)
        case (Inl err)
        with Cons.prems(1) Inr a b bulk_row_never_fatal [OF b] show ?thesis by auto
      next
        case r1: (Inr st1)
        with Cons.prems Inr a b have "bulk_rows e command xargs True cols rs s1 st1 w1 = (res, w')"
          and "Inl import_failed \<notin> set rs"
          by auto
        then show ?thesis by (rule Cons.IH)
      qed
    qed
  qed
qed

lemma bulk_rows_incr:
  "bulk_rows e command xargs cont cols rs s (incr, failed, tot) w =
     (Inr (s', incr', failed', tot'), w') \<Longrightarrow> incr' = incr + length rs"
proof (induction rs arbitrary: s incr failed tot w)
  case Nil
  then show ?case by simp
next
  case (Cons r rs)
  from Cons.prems obtain parts s1 st1 w1 where
    "bulk_row e command xargs cont s1 (incr, failed, tot) w = (Inr st1, w1)" and
    rest: "bulk_rows e command xargs cont cols rs s1 st1 w1 = (Inr (s', incr', failed', tot'), w')"
    by (auto split: sum.splits prod.splits)
  moreover obtain i1 f1 t1 where st1: "st1 = (i1, f1, t1)"
    by (cases st1)
  ultimately have "i1 = incr + 1"
    by (auto simp: bulk_row_def split: option.splits prod.splits sum.splits)
  with rest st1 Cons.IH [of s1 i1 f1 t1 w1] show ?case
    by simp
qed

lemma add_c_forwarded:
  "''c'' \<in> set (accepts s) \<Longrightarrow> map_of (added s) ''c'' = None \<Longrightarrow>
   \<exists>s'. add ''c'' NO_ARG s = Inr s' \<and> java_additional s' = java_additional s @ [''-c'']"
  by (simp add: add_def example_py_keys place_arg_def append_arg_def build_arg_list_def)

text \<open>
  C10. When the merged bulk file holds the key \<open>continue\<close>, whatever its value (also
  \<open>false\<close>), \<open>parse_bulk\<close> yields \<open>cont = True\<close> and the run never dies of a failed
  import: a status that is not zero is not fatal, and a run that completes has gone
  through every row. The flag \<open>-c\<close> is added to the arguments of the external process
  when the value is truthy, and the arguments are left as they were when it is not.
\<close>

theorem continue_declared_with_any_value:
  assumes "map_of bulk ''continue'' = Some c"
  shows
    "(\<forall>cont bulk2 s2. setup_continue bulk s = Inr (cont, bulk2, s2) \<longrightarrow>
        cont \<and> (truthy c \<longrightarrow> add ''c'' NO_ARG s = Inr s2) \<and> (\<not> truthy c \<longrightarrow> s2 = s)) \<and>
     (truthy c \<and> ''c'' \<in> set (accepts s) \<and> map_of (added s) ''c'' = None \<longrightarrow>
        (\<exists>bulk2 s2. setup_continue bulk s = Inr (True, bulk2, s2) \<and>
           java_additional s2 = java_additional s @ [''-c''])) \<and>
     (\<forall>cont cols path s4. parse_bulk_setup bulk s = Inr (cont, cols, path, s4) \<longrightarrow> cont) \<and>
     (\<forall>res w'. bulk_run e command s xargs bulk w = (res, w') \<longrightarrow>
        res \<noteq> Inl import_failed \<and>
        (\<forall>s' incr' failed' tot'. res = Inr (s', incr', failed', tot') \<longrightarrow>
           (\<exists>cols path s4 f. parse_bulk_setup bulk s = Inr (True, cols, path, s4) \<and>
              select_function cols path = Inr f \<and>
              incr' = length (run_parser f e (cwd w) path))))"
proof (intro conjI allI impI)
  fix cont bulk2 s2
  assume "setup_continue bulk s = Inr (cont, bulk2, s2)"
  from setup_continue_result [OF this] assms
  show "cont" "truthy c \<Longrightarrow> add ''c'' NO_ARG s = Inr s2" "\<not> truthy c \<Longrightarrow> s2 = s"
    by simp_all
next
  assume "truthy c \<and> ''c'' \<in> set (accepts s) \<and> map_of (added s) ''c'' = None"
  with add_c_forwarded [of s] assms
  show "\<exists>bulk2 s2. setup_continue bulk s = Inr (True, bulk2, s2) \<and>
          java_additional s2 = java_additional s @ [''-c'']"
    by (auto simp: setup_continue_def bind_err_def)
next
  fix cont cols path s4
  assume "parse_bulk_setup bulk s = Inr (cont, cols, path, s4)"
  from parse_bulk_setup_result(1) [OF this] assms show cont
    by simp
next
  fix res w'
  assume run: "bulk_run e command s xargs bulk w = (res, w')"
  show "res \<noteq> Inl import_failed"
  proof (cases "parse_bulk_setup bulk s")
    case (Inl err)
    with run parse_bulk_setup_error [OF Inl] show ?thesis
      by (auto simp: bulk_run_def)
  next
    case (Inr x)
    obtain cont cols path s4 where x: "x = (cont, cols, path, s4)"
      by (cases x) auto
    have cont: cont
      using parse_bulk_setup_result(1) [of bulk s cont cols path s4] Inr x assms by simp
    show ?thesis
    proof (cases "select_function cols path")
      case f: (Inl err)
      with run Inr x select_function_error [OF f] show ?thesis
        by (auto simp: bulk_run_def)
    next
      case f: (Inr f)
      with run Inr x cont
      have "bulk_rows e command xargs True cols (run_parser f e (cwd w) path) s4 (0, 0, 0) w =
              (res, w')"
        by (auto simp: bulk_run_def)
      then show ?thesis
        using run_parser_no_die by (rule bulk_rows_never_fatal)
    qed
  qed
next
  fix res w' s' incr' failed' tot'
  assume run: "bulk_run e command s xargs bulk w = (res, w')"
    and res: "res = Inr (s', incr', failed', tot')"
  from run res obtain cont cols path s4 f where
    p: "parse_bulk_setup bulk s = Inr (cont, cols, path, s4)" and
    f: "select_function cols path = Inr f" and
    l: "bulk_rows e command xargs cont cols (run_parser f e (cwd w) path) s4 (0, 0, 0) w =
          (Inr (s', incr', failed', tot'), w')"
    by (auto simp: bulk_run_def split: sum.splits prod.splits)
  have cont: cont
    using parse_bulk_setup_result(1) [OF p] assms by simp
  from bulk_rows_incr [OF l] p f cont
  show "\<exists>cols path s4 f. parse_bulk_setup bulk s = Inr (True, cols, path, s4) \<and>
              select_function cols path = Inr f \<and>
              incr' = length (run_parser f e (cwd w) path)"
    by auto
qed

section \<open>A run of three rows\<close>

text \<open>Arguments as the constructor leaves them for a small namespace, and the state
  before the run.\<close>

definition bulk_arguments :: command_arguments where
  "bulk_arguments =
     \<lparr>args = [(''file'', PNone), (''errs'', PNone), (''logprefix'', PNone)],
      accepts = [''c'', ''n'', ''name''], added = [],
      java_initial = [''-s'', ''h''], java_additional = [],
      py_initial = [], py_additional = [],
      attrs = [(''path'', PList []), (''JAVA_DEBUG'', PNone)]\<rparr>"

definition start_world :: world where
  "start_world = \<lparr>rv = 0, events = [], cwd = ''/w'', handles = [], next_handle = 3\<rparr>"










section \<open>Continue-on-error policy\<close>



text \<open>C10 at two bulk files: \<open>continue: false\<close> leaves the arguments as they were and
  still makes the run continue; a truthy value adds \<open>-c\<close>.\<close>

theorem continue_declared_with_any_value_witness:
  "setup_continue [(''continue'', PBool False), (''path'', PStr ''files.txt'')] bulk_arguments =
     Inr (True, [(''path'', PStr ''files.txt'')], bulk_arguments) \<and>
   fst (bulk_run example_env [START_CLASS] bulk_arguments []
          [(''continue'', PBool False), (''path'', PStr ''files.txt'')] start_world) \<noteq>
     Inl import_failed \<and>
   (\<exists>bulk2 s2. setup_continue [(''continue'', PStr ''no''), (''path'', PStr ''files.txt'')]
                  bulk_arguments = Inr (True, bulk2, s2) \<and>
      java_additional s2 = [''-c''])"
proof -
  let ?f = "[(''continue'', PBool False), (''path'', PStr ''files.txt'')]"
  let ?t = "[(''continue'', PStr ''no''), (''path'', PStr ''files.txt'')]"
  have kf: "map_of ?f ''continue'' = Some (PBool False)"
    by simp
  have kt: "map_of ?t ''continue'' = Some (PStr ''no'')"
    by simp
  have ev: "setup_continue ?f bulk_arguments = Inr (True, [(''path'', PStr ''files.txt'')], bulk_arguments)"
    by (simp add: setup_continue_def)
  obtain res w' where run: "bulk_run example_env [START_CLASS] bulk_arguments [] ?f start_world = (res, w')"
    by (cases "bulk_run example_env [START_CLASS] bulk_arguments [] ?f start_world")
  note tf = continue_declared_with_any_value
              [OF kf, of bulk_arguments example_env "[START_CLASS]" "[]" start_world]
  from tf run have 2: "res \<noteq> Inl import_failed"
    by blast
  note tt = continue_declared_with_any_value
              [OF kt, of bulk_arguments example_env "[START_CLASS]" "[]" start_world]
  have a: "truthy (PStr ''no'') \<and> ''c'' \<in> set (accepts bulk_arguments) \<and>
           map_of (added bulk_arguments) ''c'' = None"
    by (simp add: bulk_arguments_def)
  from tt a have 3: "\<exists>bulk2 s2. setup_continue ?t bulk_arguments = Inr (True, bulk2, s2) \<and>
      java_additional s2 = java_additional bulk_arguments @ [''-c'']"
    by blast
  from ev 2 3 run show ?thesis
    by (simp add: bulk_arguments_def)
qed

section \<open>Dry runs never invoke the external process\<close>




section \<open>What a dry run writes\<close>


















section \<open>Working directory and file handles\<close>

text \<open>\<open>bulk_import\<close> leaves the working directory it found, whatever the outcome.\<close>

lemma bulk_import_restores_cwd:
  "bulk_import e command s xargs w = Some (res, w') \<Longrightarrow> cwd w' = cwd w"
  by (auto simp: bulk_import_def Let_def split: if_splits option.splits sum.splits prod.splits)

text \<open>Every open file object has an identifier below the next one to be given.\<close>

definition fresh :: "world \<Rightarrow> bool" where
  "fresh w = list_all (\<lambda>h. fst h < next_handle w) (handles w)"

lemma open_log_handles:
  assumes "open_log e file prefix mode w = (Inr h, w1)"
  shows "(h = None \<and> w1 = w) \<or>
         (h = Some (next_handle w) \<and> next_handle w1 = Suc (next_handle w) \<and>
          (\<exists>f. handles w1 = handles w @ [(next_handle w, f, mode)]))"
  using assms
  by (auto simp: open_log_def Let_def split: if_splits sum.splits)

lemma filter_fresh:
  "list_all (\<lambda>h. fst h < (n::nat)) hs \<Longrightarrow> n \<le> i \<Longrightarrow> filter (\<lambda>x. fst x \<noteq> i) hs = hs"
  by (induction hs) auto

text \<open>When both files are opened (or not asked for), the \<open>finally\<close> block of \<open>do_import\<close>
  closes what was opened.\<close>

lemma open_files_closed:
  assumes "fresh w" and "open_files e s mode w = (Inr (out, errh), w2)"
  shows "handles (close_handle errh (close_handle out w2)) = handles w"
proof -
  from assms(2) obtain w1 fl errs logprefix where
    1: "open_log e fl logprefix mode w = (Inr out, w1)" and
    2: "open_log e errs logprefix mode w1 = (Inr errh, w2)"
    by (auto simp: open_files_def split: sum.splits prod.splits)
  have f: "list_all (\<lambda>h. fst h < next_handle w) (handles w)"
    using assms(1) by (simp add: fresh_def)
  note r = filter_fresh [OF f]
  from open_log_handles [OF 1] open_log_handles [OF 2] show ?thesis
    by (auto simp: close_handle_def r)
qed

lemma do_import_closes_handles:
  assumes "fresh w" and "do_import e command s xargs mode w = (res, w')"
    and "open_files e s mode w = (Inr hs, w2)"
  shows "handles w' = handles w"
proof -
  obtain out errh where hs: "hs = (out, errh)"
    by (cases hs)
  from assms(2,3) hs open_files_closed [OF assms(1), of e s mode out errh w2] show ?thesis
    by (auto simp: do_import_def close_handle_def emit_def
             split: sum.splits option.splits)
qed

text \<open>
  C9, at a concrete input. The namespace asks for an output file that can be opened and
  an error file that cannot. \<open>open_files\<close> opens the first and raises on the second
  before \<open>do_import\<close> has bound \<open>out\<close>, so the \<open>finally\<close> block closes nothing, and the
  file object of the output file (identifier 3) is still open when \<open>do_import\<close> is
  left.
\<close>

theorem do_import_leaves_output_file_open:
  "do_import example_env [START_CLASS]
     (bulk_arguments
        \<lparr>args := [(''file'', PStr ''out.log''), (''errs'', PStr ''err.log''),
                  (''logprefix'', PNone)]\<rparr>)
     [] ''w'' start_world =
   (Inl (IOError ''/w/err.log''),
    start_world\<lparr>handles := [(3, ''/w/out.log'', ''w'')], next_handle := 4\<rparr>)"
  by (simp add: do_import_def java_args_def getattr_def bulk_arguments_def open_files_def
        arg_lookup_def open_log_def log_path_def Let_def example_env_def start_world_def)

section \<open>The example chain, loaded and run\<close>

lemma example_env_files:
  "safe_load_file example_env ''/w/A.yml'' = Some (PDict example_A)"
  "safe_load_file example_env ''/w/B.yml'' = Some (PDict example_B)"
  "abspath example_env ''/w'' ''A.yml'' = ''/w/A.yml''"
  "abspath example_env ''/w'' ''B.yml'' = ''/w/B.yml''"
  "dirname example_env p = ''/w''"
  "yaml_available example_env"
  by (simp_all add: example_env_def)

text \<open>The loader walks from the root \<open>A\<close> to \<open>B\<close> and stops there.\<close>

lemma example_chain_loaded:
  "load_contents example_env (PStr ''A.yml'') [] ''/w'' = Some (Inr example_chain, ''/w'')"
  apply (subst load_contents.simps)
  apply (simp add: example_env_files dict_get_def example_A_def)
  apply (subst load_contents.simps)
  apply (simp add: example_env_files dict_get_def example_B_def)
  apply (subst load_contents.simps)
  apply (simp add: example_chain_def example_A_def example_B_def)
  done

text \<open>The two files of the example declare no \<open>path\<close>: the run ends in \<open>parse_bulk\<close>,
  and the working directory is the one before the run.\<close>

lemma example_chain_run:
  "bulk_import example_env [START_CLASS]
     (bulk_arguments\<lparr>attrs := [(''bulk'', PStr ''A.yml'')]\<rparr>) [] start_world =
   Some (Inl (Die 107 ''No path specified''), start_world)"
proof -
  let ?s = "bulk_arguments\<lparr>attrs := [(''bulk'', PStr ''A.yml'')]\<rparr>"
  let ?bulk = "[(''x'', PInt 1), (''y'', PInt 3), (''include'', PStr ''B.yml'')]"
  have m: "merge_contents example_chain ''/w'' = (?bulk, ''/w'')"
    by (simp add: merge_contents_def merge_step_def dict_update_def example_chain_def
          example_A_def example_B_def)
  have p: "parse_bulk_setup ?bulk ?s = Inl (Die 107 ''No path specified'')"
    by (simp add: parse_bulk_setup_def setup_dry_run_def setup_continue_def setup_skip_def
          bind_err_def Let_def)
  have r: "bulk_run example_env [START_CLASS] ?s [] ?bulk w =
             (Inl (Die 107 ''No path specified''), w)" for w
    by (simp add: bulk_run_def p)
  have c: "cwd start_world = ''/w''"
    by (simp add: start_world_def)
  have g: "getattr ?s ''bulk'' = Some (PStr ''A.yml'')"
    by (simp add: getattr_def)
  show ?thesis
    unfolding bulk_import_def
    by (simp add: example_env_files g c example_chain_loaded m r)
qed

end
